theory Spec2Isabelle
  imports Complex_Main "HOL-Library.Multiset" "HOL-Library.Sublist"
    "HOL-Library.List_Lexorder" "HOL-Library.Char_ord"
begin

section \<open>The prediction service of deployment.py\<close>

text \<open>
  The module serves three precomputed prediction tables over HTTP. Its own code is the
  loader \<open>_load_predictions\<close>, the selector \<open>_top_rows\<close> and the handler
  \<open>get_predictions\<close>; everything else is pandas and FastAPI. The embedding keeps the
  module's functions as they are written and gives the library calls they make an explicit
  meaning: a data frame is a list of column names and a list of labelled rows, the file
  system is a map from paths to files, and an exception is the left summand of a sum.
  A leading underscore is not a legal identifier here, so \<open>_load_predictions\<close> and
  \<open>_top_rows\<close> are \<open>load_predictions\<close> and \<open>top_rows\<close>.
\<close>

subsection \<open>Enumerations and the file table\<close>

datatype ModelChoice = logistic_regression | xgboost | weibull_tte_rnn

text \<open>\<open>ModelChoice.value\<close>: the string of an enumeration member.\<close>

fun model_value :: "ModelChoice \<Rightarrow> string" where
  "model_value logistic_regression = ''logistic_regression''"
| "model_value xgboost = ''xgboost''"
| "model_value weibull_tte_rnn = ''weibull_tte_rnn''"

datatype OutputFormat = json | csv

text \<open>
  A path is its list of components, relative to \<open>BASE_DIR\<close> (the directory of the
  module, fixed at deployment); \<open>Path.name\<close> is the last component.
\<close>

type_synonym Path = "string list"

definition PREDICTION_DB_DIR :: Path where
  "PREDICTION_DB_DIR = [''Prediction database'']"

fun MODEL_FILES :: "ModelChoice \<Rightarrow> Path" where
  "MODEL_FILES logistic_regression = PREDICTION_DB_DIR @ [''logreg_predictions_all.csv'']"
| "MODEL_FILES xgboost = PREDICTION_DB_DIR @ [''xgb_predictions_all.csv'']"
| "MODEL_FILES weibull_tte_rnn = PREDICTION_DB_DIR @ [''weibull_tte_predictions_all.csv'']"

definition path_name :: "Path \<Rightarrow> string" where
  "path_name p = (if p = [] then [] else last p)"

subsection \<open>Data frames\<close>

text \<open>
  A frame has its column names in file order and its rows in order; a row is its index
  label and its cells, one per column. A cell is a scalar of type \<open>'v\<close> or missing
  (\<open>None\<close>, pandas' NaN). The scalars of a column are compared with \<open>\<le>\<close>, so
  \<open>'v\<close> is a linear order wherever a frame is sorted: the values of a sorted column
  can be compared with each other, as those of a parsed numeric or text column can.
\<close>

record 'v DataFrame =
  columns :: "string list"
  rows :: "(nat \<times> 'v option list) list"

text \<open>The cell of a row under a column name; a row too short for the column has none.\<close>

definition cell :: "string list \<Rightarrow> string \<Rightarrow> 'v option list \<Rightarrow> 'v option" where
  "cell cols c r = (case map_of (zip cols r) c of Some v \<Rightarrow> v | None \<Rightarrow> None)"

text \<open>\<open>df[c]\<close>: the values of one column, in row order.\<close>

definition column :: "'v DataFrame \<Rightarrow> string \<Rightarrow> 'v option list" where
  "column df c = map (\<lambda>r. cell (columns df) c (snd r)) (rows df)"

text \<open>The cells of the rows without their labels (\<open>df.values\<close>).\<close>

definition cells :: "'v DataFrame \<Rightarrow> 'v option list list" where
  "cells df = map snd (rows df)"

text \<open>\<open>len(df)\<close> counts rows; \<open>df.empty\<close> holds when either axis has length zero.\<close>

definition len :: "'v DataFrame \<Rightarrow> nat" where
  "len df = length (rows df)"

definition empty_df :: "'v DataFrame \<Rightarrow> bool" where
  "empty_df df = (columns df = [] \<or> rows df = [])"

text \<open>
  \<open>df.head(n)\<close> is \<open>df.iloc[:n]\<close>, a Python slice: a negative \<open>n\<close> leaves out the
  last \<open>-n\<close> rows.
\<close>

definition py_take :: "int \<Rightarrow> 'a list \<Rightarrow> 'a list" where
  "py_take n xs = (if 0 \<le> n then take (nat n) xs else take (nat (int (length xs) + n)) xs)"

definition head :: "'v DataFrame \<Rightarrow> int \<Rightarrow> 'v DataFrame" where
  "head df n = df\<lparr>rows := py_take n (rows df)\<rparr>"

text \<open>\<open>df.reset_index(drop=True)\<close>: the old labels are dropped for 0, 1, 2, ...\<close>

definition reset_index :: "'v DataFrame \<Rightarrow> 'v DataFrame" where
  "reset_index df = df\<lparr>rows := enumerate 0 (map snd (rows df))\<rparr>"

text \<open>\<open>df.to_dict(orient="records")\<close>: one column-to-value mapping per row, columns in order.\<close>

definition to_dict_records :: "'v DataFrame \<Rightarrow> (string \<times> 'v option) list list" where
  "to_dict_records df = map (\<lambda>r. zip (columns df) (snd r)) (rows df)"

subsection \<open>Sorting a frame by one column\<close>

text \<open>
  \<open>df.sort_values(col, ascending=...)\<close> is called with the defaults \<open>kind='quicksort'\<close>
  and \<open>na_position='last'\<close>. For one column pandas computes the row order with
  \<open>nargsort\<close>: the missing values are set aside, the present values are handed to the
  array's \<open>argsort\<close>, reversed before and after for a descending sort, and the positions
  of the missing values are appended in row order. The \<open>argsort\<close> of kind quicksort is
  numpy's and is taken as a parameter: it returns the positions of its argument in sorted
  order, and which of two equal values comes first is its business. What is proved of
  the selector for every algorithm that sorts does not depend on the routine numpy picks
  for an element type and a machine; the routine it has for every type is given below.
\<close>

definition nargsort :: "('v list \<Rightarrow> nat list) \<Rightarrow> 'v option list \<Rightarrow> bool \<Rightarrow> nat list" where
  "nargsort argsort items ascending =
     (let idx = [0..<length items];
          nonnan_idx = filter (\<lambda>i. items ! i \<noteq> None) idx;
          nan_idx = filter (\<lambda>i. items ! i = None) idx;
          nonnan = map (\<lambda>i. the (items ! i)) nonnan_idx;
          nonnan' = (if ascending then nonnan else rev nonnan);
          nonnan_idx' = (if ascending then nonnan_idx else rev nonnan_idx);
          indexer = map (\<lambda>j. nonnan_idx' ! j) (argsort nonnan');
          indexer' = (if ascending then indexer else rev indexer)
      in indexer' @ nan_idx)"

definition sort_values ::
    "('v list \<Rightarrow> nat list) \<Rightarrow> 'v DataFrame \<Rightarrow> string \<Rightarrow> bool \<Rightarrow> 'v DataFrame" where
  "sort_values argsort df c ascending =
     df\<lparr>rows := map (\<lambda>i. rows df ! i) (nargsort argsort (column df c) ascending)\<rparr>"

text \<open>
  What every sorting algorithm behind \<open>argsort\<close> delivers: a rearrangement of the
  positions \<open>0..<n\<close> under which the values are in order.
\<close>

definition argsort_ok :: "('v::linorder list \<Rightarrow> nat list) \<Rightarrow> bool" where
  "argsort_ok argsort =
     (\<forall>xs. mset (argsort xs) = mset [0..<length xs] \<and> sorted (map (\<lambda>i. xs ! i) (argsort xs)))"

text \<open>A stable algorithm moreover keeps the positions of equal values in increasing order.\<close>

definition argsort_stable :: "('v::linorder list \<Rightarrow> nat list) \<Rightarrow> bool" where
  "argsort_stable argsort =
     (\<forall>xs k. filter (\<lambda>i. xs ! i = k) (argsort xs) = filter (\<lambda>i. xs ! i = k) [0..<length xs])"

subsection \<open>numpy's quicksort on positions\<close>

text \<open>
  The routine behind \<open>argsort\<close> of kind quicksort where numpy has no vectorised one for
  the element type: \<open>npy_aquicksort\<close> of \<open>npysort/quicksort.cpp\<close>, which sorts arrays of
  Python objects (the text columns of a parsed file) and has the same body as the typed
  \<open>aquicksort_\<close>. It permutes the array \<open>tosort\<close> of positions, which starts as
  \<open>0, 1, ..., num - 1\<close>, and never moves the values \<open>v\<close>:
  \<^verbatim>\<open>
  pl = tosort; pr = tosort + num - 1; cdepth = npy_get_msb(num) * 2;
  while (1) {
      if (cdepth < 0) { aheapsort(v, pl, pr - pl + 1); goto stack_pop; }
      while ((pr - pl) > SMALL_QUICKSORT) {
          pm = pl + ((pr - pl) >> 1);
          if (LT(v[*pm], v[*pl])) INTP_SWAP(*pm, *pl);
          if (LT(v[*pr], v[*pm])) INTP_SWAP(*pr, *pm);
          if (LT(v[*pm], v[*pl])) INTP_SWAP(*pm, *pl);
          vp = v[*pm]; pi = pl; pj = pr - 1;
          INTP_SWAP(*pm, *pj);
          for (;;) {
              do { ++pi; } while (LT(v[*pi], vp));
              do { --pj; } while (LT(vp, v[*pj]));
              if (pi >= pj) break;
              INTP_SWAP(*pi, *pj);
          }
          pk = pr - 1;
          INTP_SWAP(*pi, *pk);
          if (pi - pl < pr - pi) { *sptr++ = pi + 1; *sptr++ = pr; pr = pi - 1; }
          else                   { *sptr++ = pl; *sptr++ = pi - 1; pl = pi + 1; }
          *psdepth++ = --cdepth;
      }
      for (pi = pl + 1; pi <= pr; ++pi) {
          vi = *pi; vp = v[vi]; pj = pi; pk = pi - 1;
          while (pj > pl && LT(vp, v[*pk])) { *pj-- = *pk--; }
          *pj = vi;
      }
  stack_pop:
      if (sptr == stack) break;
      pr = *(--sptr); pl = *(--sptr); cdepth = *(--psdepth);
  }
  \<close>
  Pointers into \<open>tosort\<close> are positions in the list \<open>ts\<close>; the variables \<open>pi\<close>,
  \<open>pj\<close> and \<open>pk\<close> are written \<open>p_i\<close>, \<open>p_j\<close> and \<open>p_k\<close>. Ranges of up to 17
  elements are sorted by insertion, which does not move equal values past each other;
  longer ranges are partitioned first, and the partition swaps positions of equal values.
\<close>

definition SMALL_QUICKSORT :: nat where
  "SMALL_QUICKSORT = 16"

definition INTP_SWAP :: "nat list \<Rightarrow> nat \<Rightarrow> nat \<Rightarrow> nat list" where
  "INTP_SWAP ts a b = ts[a := ts ! b, b := ts ! a]"

text \<open>\<open>npy_get_msb\<close>: the position of the highest set bit, 0 for 0 and for 1.\<close>

function npy_get_msb :: "nat \<Rightarrow> nat" where
  "npy_get_msb unum = (if unum div 2 = 0 then 0 else Suc (npy_get_msb (unum div 2)))"
  by pat_completeness auto
termination
  by (relation "measure id") auto

declare npy_get_msb.simps [simp del]

text \<open>
  The heap sort a range falls back to when the depth limit is used up. It sees the range
  that starts at \<open>pl\<close> as the array \<open>a[1..n]\<close>, so \<open>a[k]\<close> is \<open>ts ! (pl + k - 1)\<close>:
  \<^verbatim>\<open>
  for (l = n >> 1; l > 0; --l) {
      tmp = a[l];
      for (i = l, j = l << 1; j <= n;) {
          if (j < n && LT(v[a[j]], v[a[j + 1]])) j += 1;
          if (LT(v[tmp], v[a[j]])) { a[i] = a[j]; i = j; j += j; }
          else break;
      }
      a[i] = tmp;
  }
  for (; n > 1;) {
      tmp = a[n]; a[n] = a[1]; n -= 1;
      for (i = 1, j = 2; j <= n;) { ... the same body ... }
      a[i] = tmp;
  }
  \<close>
\<close>

function sift_down ::
    "'v::linorder list \<Rightarrow> nat \<Rightarrow> nat \<Rightarrow> nat \<Rightarrow> nat list \<Rightarrow> nat \<Rightarrow> nat \<Rightarrow> nat list" where
  "sift_down v tmp pl n ts i j =
     (if 0 < j \<and> j \<le> n then
        (let j' = (if j < n \<and> v ! (ts ! (pl + j - 1)) < v ! (ts ! (pl + j)) then j + 1 else j)
         in if v ! tmp < v ! (ts ! (pl + j' - 1)) then
              sift_down v tmp pl n (ts[pl + i - 1 := ts ! (pl + j' - 1)]) j' (j' + j')
            else ts[pl + i - 1 := tmp])
      else ts[pl + i - 1 := tmp])"
  by pat_completeness auto
termination
  by (relation "measure (\<lambda>(v, tmp, pl, n, ts, i, j). Suc n - j)") auto

declare sift_down.simps [simp del]

fun build_heap :: "'v::linorder list \<Rightarrow> nat \<Rightarrow> nat \<Rightarrow> nat list \<Rightarrow> nat \<Rightarrow> nat list" where
  "build_heap v pl n ts 0 = ts"
| "build_heap v pl n ts (Suc l) =
     build_heap v pl n (sift_down v (ts ! (pl + l)) pl n ts (Suc l) (2 * Suc l)) l"

function drain_heap :: "'v::linorder list \<Rightarrow> nat \<Rightarrow> nat list \<Rightarrow> nat \<Rightarrow> nat list" where
  "drain_heap v pl ts n =
     (if 1 < n then
        (let tmp = ts ! (pl + n - 1);
             ts' = ts[pl + n - 1 := ts ! pl]
         in drain_heap v pl (sift_down v tmp pl (n - 1) ts' 1 2) (n - 1))
      else ts)"
  by pat_completeness auto
termination
  by (relation "measure (\<lambda>(v, pl, ts, n). n)") auto

declare drain_heap.simps [simp del]

definition npy_aheapsort :: "'v::linorder list \<Rightarrow> nat list \<Rightarrow> nat \<Rightarrow> nat \<Rightarrow> nat list" where
  "npy_aheapsort v ts pl n = drain_heap v pl (build_heap v pl n ts (n div 2)) n"

text \<open>The insertion sort of a range: the inner loop moves larger values one place right.\<close>

function shift_right :: "'v::linorder list \<Rightarrow> 'v \<Rightarrow> nat \<Rightarrow> nat list \<Rightarrow> nat \<Rightarrow> nat list \<times> nat" where
  "shift_right v vp pl ts p_j =
     (if pl < p_j \<and> vp < v ! (ts ! (p_j - 1)) then
        shift_right v vp pl (ts[p_j := ts ! (p_j - 1)]) (p_j - 1)
      else (ts, p_j))"
  by pat_completeness auto
termination
  by (relation "measure (\<lambda>(v, vp, pl, ts, p_j). p_j)") auto

declare shift_right.simps [simp del]

function insertion_sort :: "'v::linorder list \<Rightarrow> nat \<Rightarrow> nat \<Rightarrow> nat list \<Rightarrow> nat \<Rightarrow> nat list" where
  "insertion_sort v pl pr ts p_i =
     (if p_i \<le> pr then
        (let vi = ts ! p_i
         in case shift_right v (v ! vi) pl ts p_i of
              (ts', p_j) \<Rightarrow> insertion_sort v pl pr (ts'[p_j := vi]) (p_i + 1))
      else ts)"
  by pat_completeness auto
termination
  by (relation "measure (\<lambda>(v, pl, pr, ts, p_i). Suc pr - p_i)") auto

declare insertion_sort.simps [simp del]

text \<open>
  The two scans of the partition. In the code nothing bounds them but the values: the
  pivot, parked at \<open>p_k = pr - 1\<close>, stops the scan upwards, and the value at \<open>pl\<close>, which
  the median of three made no larger than the pivot, stops the scan downwards. Neither
  position is touched by a swap of the loop. The scans here stop there without asking.
\<close>

function scan_up :: "'v::linorder list \<Rightarrow> nat list \<Rightarrow> 'v \<Rightarrow> nat \<Rightarrow> nat \<Rightarrow> nat" where
  "scan_up v ts vp p_k p_i =
     (if p_i + 1 < p_k \<and> v ! (ts ! (p_i + 1)) < vp then scan_up v ts vp p_k (p_i + 1)
      else p_i + 1)"
  by pat_completeness auto
termination
  by (relation "measure (\<lambda>(v, ts, vp, p_k, p_i). p_k - p_i)") auto

declare scan_up.simps [simp del]

function scan_down :: "'v::linorder list \<Rightarrow> nat list \<Rightarrow> 'v \<Rightarrow> nat \<Rightarrow> nat \<Rightarrow> nat" where
  "scan_down v ts vp pl p_j =
     (if pl < p_j - 1 \<and> vp < v ! (ts ! (p_j - 1)) then scan_down v ts vp pl (p_j - 1)
      else p_j - 1)"
  by pat_completeness auto
termination
  by (relation "measure (\<lambda>(v, ts, vp, pl, p_j). p_j)") auto

declare scan_down.simps [simp del]

function partition_loop ::
    "'v::linorder list \<Rightarrow> 'v \<Rightarrow> nat \<Rightarrow> nat \<Rightarrow> nat list \<Rightarrow> nat \<Rightarrow> nat \<Rightarrow> nat list \<times> nat" where
  "partition_loop v vp pl p_k ts p_i p_j =
     (let p_i' = scan_up v ts vp p_k p_i;
          p_j' = scan_down v ts vp pl p_j
      in if p_j' \<le> p_i' then (ts, p_i')
         else partition_loop v vp pl p_k (INTP_SWAP ts p_i' p_j') p_i' p_j')"
  by pat_completeness auto
termination
proof (relation "measure (\<lambda>(v, vp, pl, p_k, ts, p_i, p_j). p_j - p_i)", goal_cases)
  case 1
  show ?case by simp
next
  case (2 v vp pl p_k ts p_i p_j p_i' p_j')
  have "p_i < scan_up v ts vp p_k p_i"
    by (induction v ts vp p_k p_i rule: scan_up.induct)
       (subst scan_up.simps, auto split: if_splits)
  moreover have "scan_down v ts vp pl p_j \<le> p_j - 1"
    by (induction v ts vp pl p_j rule: scan_down.induct)
       (subst scan_down.simps, auto split: if_splits)
  ultimately show ?case using 2 by simp
qed

declare partition_loop.simps [simp del]

text \<open>One partition of the range \<open>pl..pr\<close> around the median of three; it returns \<open>pi\<close>.\<close>

definition partition_step ::
    "'v::linorder list \<Rightarrow> nat list \<Rightarrow> nat \<Rightarrow> nat \<Rightarrow> nat list \<times> nat" where
  "partition_step v ts pl pr =
     (let pm = pl + (pr - pl) div 2;
          ts1 = (if v ! (ts ! pm) < v ! (ts ! pl) then INTP_SWAP ts pm pl else ts);
          ts2 = (if v ! (ts1 ! pr) < v ! (ts1 ! pm) then INTP_SWAP ts1 pr pm else ts1);
          ts3 = (if v ! (ts2 ! pm) < v ! (ts2 ! pl) then INTP_SWAP ts2 pm pl else ts2);
          vp = v ! (ts3 ! pm);
          p_k = pr - 1;
          ts4 = INTP_SWAP ts3 pm p_k
      in case partition_loop v vp pl p_k ts4 pl p_k of
           (ts5, p_i) \<Rightarrow> (INTP_SWAP ts5 p_i p_k, p_i))"

text \<open>
  The inner \<open>while\<close>: partition, push the larger side with the decremented depth, go on
  with the smaller side. The stack holds \<open>(pl, pr, cdepth)\<close>, the last push first.
\<close>

function partition_phase ::
    "'v::linorder list \<Rightarrow> nat list \<Rightarrow> nat \<Rightarrow> nat \<Rightarrow> int \<Rightarrow> (nat \<times> nat \<times> int) list
       \<Rightarrow> nat list \<times> nat \<times> nat \<times> (nat \<times> nat \<times> int) list" where
  "partition_phase v ts pl pr cdepth stack =
     (if SMALL_QUICKSORT < pr - pl then
        (case partition_step v ts pl pr of
           (ts', p_i) \<Rightarrow>
             if p_i - pl < pr - p_i then
               partition_phase v ts' pl (p_i - 1) (cdepth - 1) ((p_i + 1, pr, cdepth - 1) # stack)
             else
               partition_phase v ts' (p_i + 1) pr (cdepth - 1) ((pl, p_i - 1, cdepth - 1) # stack))
      else (ts, pl, pr, stack))"
  by pat_completeness auto
termination
  by (relation "measure (\<lambda>(v, ts, pl, pr, cdepth, stack). pr - pl)")
     (auto simp: SMALL_QUICKSORT_def)

declare partition_phase.simps [simp del]

text \<open>The elements of a range; the outer loop ends because their total on the stack falls.\<close>

fun range_size :: "nat \<times> nat \<times> int \<Rightarrow> nat" where
  "range_size (pl, pr, cdepth) = Suc (pr - pl)"

text \<open>The outer loop, and the routine: the positions \<open>0..<num\<close> sorted by their values.\<close>

function aquicksort_loop ::
    "'v::linorder list \<Rightarrow> nat list \<Rightarrow> nat \<Rightarrow> nat \<Rightarrow> int \<Rightarrow> (nat \<times> nat \<times> int) list \<Rightarrow> nat list" where
  "aquicksort_loop v ts pl pr cdepth stack =
     (case (if cdepth < 0 then (npy_aheapsort v ts pl (pr - pl + 1), stack)
            else (case partition_phase v ts pl pr cdepth stack of
                    (ts', pl', pr', stack') \<Rightarrow> (insertion_sort v pl' pr' ts' (pl' + 1), stack')))
      of (ts', []) \<Rightarrow> ts'
       | (ts', (pl', pr', cdepth') # stack') \<Rightarrow> aquicksort_loop v ts' pl' pr' cdepth' stack')"
  by pat_completeness auto
termination
proof (relation "measure (\<lambda>(v, ts, pl, pr, cdepth, stack).
                   Suc (pr - pl) + sum_list (map range_size stack))", goal_cases)
  case 1
  show ?case by simp
next
  case (2 v ts pl pr cdepth stack x y top rest pl' y' pr' cdepth')
  have up_gt: "p_i < scan_up v ts vp p_k p_i"
    for v :: "'v::linorder list" and ts vp p_k p_i
    by (induction v ts vp p_k p_i rule: scan_up.induct)
       (subst scan_up.simps, auto split: if_splits)
  have up_le: "scan_up v ts vp p_k p_i \<le> p_k" if "p_i < p_k"
    for v :: "'v::linorder list" and ts vp p_k p_i
    using that
    by (induction v ts vp p_k p_i rule: scan_up.induct)
       (subst scan_up.simps, auto split: if_splits)
  have down_le: "scan_down v ts vp pl p_j \<le> p_j - 1"
    for v :: "'v::linorder list" and ts vp pl p_j
    by (induction v ts vp pl p_j rule: scan_down.induct)
       (subst scan_down.simps, auto split: if_splits)
  have loop_bounds: "p_i < p \<and> p \<le> p_k"
    if "p_i < p_k" and "p_j \<le> p_k" and "partition_loop v vp pl p_k ts p_i p_j = (ts', p)"
    for v :: "'v::linorder list" and vp pl p_k ts p_i p_j ts' p
    using that
  proof (induction v vp pl p_k ts p_i p_j rule: partition_loop.induct)
    case (1 v vp pl p_k ts p_i p_j)
    let ?i = "scan_up v ts vp p_k p_i"
    let ?j = "scan_down v ts vp pl p_j"
    have i: "p_i < ?i" "?i \<le> p_k"
      using up_gt [of p_i v ts vp p_k] up_le [of p_i p_k v ts vp] "1.prems"(1) by auto
    have j: "?j \<le> p_j - 1" by (rule down_le)
    show ?case
    proof (cases "?j \<le> ?i")
      case True
      with "1.prems"(3) have "p = ?i"
        by (subst (asm) partition_loop.simps) (auto simp: Let_def)
      with i show ?thesis by simp
    next
      case False
      with "1.prems"(3)
      have rec: "partition_loop v vp pl p_k (INTP_SWAP ts ?i ?j) ?i ?j = (ts', p)"
        by (subst (asm) partition_loop.simps) (simp add: Let_def)
      from False j "1.prems"(2) have "?i < p_k" "?j \<le> p_k" by auto
      from "1.IH" [OF refl refl False this rec] i show ?thesis by simp
    qed
  qed
  have step_bounds: "pl < p \<and> p < pr"
    if "SMALL_QUICKSORT < pr - pl" and "partition_step v ts pl pr = (ts', p)"
    for v :: "'v::linorder list" and ts pl pr ts' p
  proof -
    from that(1) have range: "pl < pr - 1" by (simp add: SMALL_QUICKSORT_def)
    from that(2) obtain vp ts4 ts5 where
      "partition_loop v vp pl (pr - 1) ts4 pl (pr - 1) = (ts5, p)"
      unfolding partition_step_def Let_def by (auto split: prod.splits)
    from loop_bounds [OF range order_refl this] range show ?thesis by arith
  qed
  have work: "Suc (pr' - pl') + sum_list (map range_size stack')
                \<le> Suc (pr - pl) + sum_list (map range_size stack)"
    if "partition_phase v ts pl pr cdepth stack = (ts', pl', pr', stack')"
    for v :: "'v::linorder list" and ts pl pr cdepth stack ts' pl' pr' stack'
    using that
  proof (induction v ts pl pr cdepth stack rule: partition_phase.induct)
    case (1 v ts pl pr cdepth stack)
    show ?case
    proof (cases "SMALL_QUICKSORT < pr - pl")
      case False
      with "1.prems" show ?thesis
        by (subst (asm) partition_phase.simps) simp
    next
      case True
      obtain ts1 p_i where step: "partition_step v ts pl pr = (ts1, p_i)"
        by (cases "partition_step v ts pl pr")
      from step_bounds [OF True step] have b: "pl < p_i" "p_i < pr" by simp_all
      show ?thesis
      proof (cases "p_i - pl < pr - p_i")
        case left: True
        with "1.prems" True step
        have "partition_phase v ts1 pl (p_i - 1) (cdepth - 1) ((p_i + 1, pr, cdepth - 1) # stack)
                = (ts', pl', pr', stack')"
          by (subst (asm) partition_phase.simps) simp
        from "1.IH"(1) [OF True step [symmetric] left this] b show ?thesis by simp
      next
        case right: False
        with "1.prems" True step
        have "partition_phase v ts1 (p_i + 1) pr (cdepth - 1) ((pl, p_i - 1, cdepth - 1) # stack)
                = (ts', pl', pr', stack')"
          by (subst (asm) partition_phase.simps) simp
        from "1.IH"(2) [OF True step [symmetric] right this] b show ?thesis by simp
      qed
    qed
  qed
  define r where
    "r = (if cdepth < 0 then (npy_aheapsort v ts pl (pr - pl + 1), stack)
          else (case partition_phase v ts pl pr cdepth stack of
                  (ts', pl', pr', stack') \<Rightarrow>
                    (insertion_sort v pl' pr' ts' (pl' + 1), stack')))"
  from 2(1) have "r = (x, y)" unfolding r_def by (rule sym)
  with 2(2-4) have popped: "snd r = (pl', pr', cdepth') # rest" by simp
  have "sum_list (map range_size (snd r)) \<le> (pr - pl) + sum_list (map range_size stack)"
  proof (cases "cdepth < 0")
    case True
    then show ?thesis by (simp add: r_def)
  next
    case False
    obtain t a b s where ph: "partition_phase v ts pl pr cdepth stack = (t, a, b, s)"
      by (cases "partition_phase v ts pl pr cdepth stack") auto
    from work [OF ph] False ph show ?thesis by (simp add: r_def)
  qed
  with popped show ?case by simp
qed

declare aquicksort_loop.simps [simp del]

definition npy_aquicksort :: "'v::linorder list \<Rightarrow> nat list" where
  "npy_aquicksort v =
     aquicksort_loop v [0..<length v] 0 (length v - 1) (2 * int (npy_get_msb (length v))) []"

subsection \<open>The file system and the loader\<close>

text \<open>
  A path holds no file, a file \<open>pd.read_csv\<close> fails on (with the text of the exception),
  or a file that parses to a frame.
\<close>

datatype 'v csv_file = Malformed string | Table "'v DataFrame"

type_synonym 'v filesystem = "Path \<rightharpoonup> 'v csv_file"

definition path_exists :: "'v filesystem \<Rightarrow> Path \<Rightarrow> bool" where
  "path_exists fs p = (fs p \<noteq> None)"

definition read_csv :: "'v filesystem \<Rightarrow> Path \<Rightarrow> string + 'v DataFrame" where
  "read_csv fs p =
     (case fs p of
        None \<Rightarrow> Inl ''[Errno 2] No such file or directory''
      | Some (Malformed error) \<Rightarrow> Inl error
      | Some (Table df) \<Rightarrow> Inr df)"

text \<open>
  What a request can fail with: an \<open>HTTPException\<close> raised by the module, with its status
  code and detail; the framework's rejection of a query parameter (which it answers with
  status 422 itself); or a \<open>ValueError\<close> that nothing in the module catches.
\<close>

datatype failure = HTTPException int string | RequestValidationError | ValueError string

text \<open>The single quotes the module's messages put around a name.\<close>

definition quoted :: "string \<Rightarrow> string" where
  "quoted s = [CHR 0x27] @ s @ [CHR 0x27]"

definition load_predictions :: "'v filesystem \<Rightarrow> ModelChoice \<Rightarrow> failure + 'v DataFrame" where
  "load_predictions fs model_choice =
     (let file_path = MODEL_FILES model_choice in
      if \<not> path_exists fs file_path then
        Inl (HTTPException 404
          (''Prediction file not found for model '' @ quoted (model_value model_choice)
             @ '': '' @ path_name file_path))
      else
        (case read_csv fs file_path of
           Inl error \<Rightarrow>
             Inl (HTTPException 500
               (''Failed to read prediction file '' @ quoted (path_name file_path)
                  @ '': '' @ error))
         | Inr df \<Rightarrow>
             if empty_df df then
               Inl (HTTPException 404
                 (''Prediction file '' @ quoted (path_name file_path) @ '' is empty.''))
             else Inr df))"

subsection \<open>The selector\<close>

definition top_rows ::
    "('v list \<Rightarrow> nat list) \<Rightarrow> 'v DataFrame \<Rightarrow> ModelChoice \<Rightarrow> int \<Rightarrow> failure + 'v DataFrame" where
  "top_rows argsort df model_choice top_x =
     (if ''rank'' \<in> set (columns df) then
        Inr (reset_index (head (sort_values argsort df ''rank'' True) top_x))
      else if model_choice \<in> {logistic_regression, xgboost} then
        (if ''prob_first_time_investor'' \<notin> set (columns df) then
           Inl (HTTPException 422 (''Expected column '' @ quoted ''prob_first_time_investor'' @ '' was not found.''))
         else
           Inr (reset_index (head (sort_values argsort df ''prob_first_time_investor'' False) top_x)))
      else
        (if ''risk_6m'' \<notin> set (columns df) then
           Inl (HTTPException 422 (''Expected column '' @ quoted ''risk_6m'' @ '' was not found.''))
         else
           Inr (reset_index (head (sort_values argsort df ''risk_6m'' False) top_x))))"

subsection \<open>The handler\<close>

text \<open>
  The content of a JSON response, and the two responses the handler builds. Python's
  \<open>str\<close> of an integer is needed for the attachment's file name.
\<close>

datatype 'v json_value =
    JString string
  | JInt int
  | JScalar "'v option"
  | JArray "'v json_value list"
  | JObject "(string \<times> 'v json_value) list"

datatype 'v Response =
    JSONResponse "'v json_value"
  | PlainTextResponse string string "(string \<times> string) list"

text \<open>
  A \<open>JSONResponse\<close> renders its content when it is constructed, with
  \<open>allow_nan=False\<close>: a missing value (NaN) anywhere in the content raises.
\<close>

fun json_compliant :: "'v json_value \<Rightarrow> bool" where
  "json_compliant (JString s) = True"
| "json_compliant (JInt i) = True"
| "json_compliant (JScalar v) = (v \<noteq> None)"
| "json_compliant (JArray xs) = list_all json_compliant xs"
| "json_compliant (JObject kvs) = list_all (\<lambda>kv. json_compliant (snd kv)) kvs"

definition new_JSONResponse :: "'v json_value \<Rightarrow> failure + 'v Response" where
  "new_JSONResponse content =
     (if json_compliant content then Inr (JSONResponse content)
      else Inl (ValueError ''Out of range float values are not JSON compliant''))"

fun digits :: "nat \<Rightarrow> string" where
  "digits n =
     (if n < 10 then [char_of (48 + n)] else digits (n div 10) @ [char_of (48 + n mod 10)])"

definition str_int :: "int \<Rightarrow> string" where
  "str_int i = (if i < 0 then ''-'' @ digits (nat (- i)) else digits (nat i))"

text \<open>
  \<open>Query(default, ge=..., le=...)\<close>: an omitted parameter takes the default, a given one
  is checked against the bounds before the handler's body runs.
\<close>

definition Query_int :: "int \<Rightarrow> int \<Rightarrow> int \<Rightarrow> int option \<Rightarrow> failure + int" where
  "Query_int dflt ge le given =
     (case given of
        None \<Rightarrow> Inr dflt
      | Some v \<Rightarrow> if ge \<le> v \<and> v \<le> le then Inr v else Inl RequestValidationError)"

definition Query_enum :: "'a \<Rightarrow> 'a option \<Rightarrow> 'a" where
  "Query_enum dflt given = (case given of None \<Rightarrow> dflt | Some v \<Rightarrow> v)"

definition json_content :: "ModelChoice \<Rightarrow> int \<Rightarrow> 'v DataFrame \<Rightarrow> 'v json_value" where
  "json_content model top_x top_df =
     JObject
       [(''model'', JString (model_value model)),
        (''top_x'', JInt top_x),
        (''count'', JInt (int (len top_df))),
        (''results'',
           JArray (map (\<lambda>record. JObject (map (\<lambda>(k, v). (k, JScalar v)) record))
                       (to_dict_records top_df)))]"

text \<open>
  The handler. \<open>top_df.to_csv(index=False)\<close> is pandas' writer, a second parameter: it
  is given the column names and the cells of the rows, and not the index.
\<close>

definition get_predictions ::
    "('v list \<Rightarrow> nat list) \<Rightarrow> (string list \<Rightarrow> 'v option list list \<Rightarrow> string) \<Rightarrow>
     'v filesystem \<Rightarrow> ModelChoice \<Rightarrow> int option \<Rightarrow> OutputFormat option \<Rightarrow> failure + 'v Response" where
  "get_predictions argsort to_csv fs model top_x_param output_param =
     (case Query_int 1000 1 100000 top_x_param of
        Inl e \<Rightarrow> Inl e
      | Inr top_x \<Rightarrow>
     (let output = Query_enum json output_param in
      case load_predictions fs model of
        Inl e \<Rightarrow> Inl e
      | Inr df \<Rightarrow>
     (case top_rows argsort df model top_x of
        Inl e \<Rightarrow> Inl e
      | Inr top_df \<Rightarrow>
          if output = csv then
            (let csv_content = to_csv (columns top_df) (cells top_df) in
             Inr (PlainTextResponse csv_content ''text/csv''
                    [(''Content-Disposition'',
                      ''attachment; filename='' @ model_value model @ ''_top_''
                        @ str_int top_x @ ''.csv'')]))
          else new_JSONResponse (json_content model top_x top_df))))"

section \<open>Vocabulary of the properties\<close>

text \<open>
  The column a branch of the selector sorts by: \<open>rank\<close> when the table has it, else the
  score column of the model. The ranking key of a row is its cell in that column.
\<close>

definition score_column :: "ModelChoice \<Rightarrow> string" where
  "score_column model_choice =
     (if model_choice \<in> {logistic_regression, xgboost} then ''prob_first_time_investor''
      else ''risk_6m'')"

definition ranking_column :: "'v DataFrame \<Rightarrow> ModelChoice \<Rightarrow> string" where
  "ranking_column df model_choice =
     (if ''rank'' \<in> set (columns df) then ''rank''
      else if model_choice \<in> {logistic_regression, xgboost} then ''prob_first_time_investor''
      else ''risk_6m'')"

definition ranking_key :: "'v DataFrame \<Rightarrow> ModelChoice \<Rightarrow> 'v option list \<Rightarrow> 'v option" where
  "ranking_key df model_choice r = cell (columns df) (ranking_column df model_choice) r"

text \<open>The rows with one value of the ranking key, in the order they have in a list of rows.\<close>

definition tie_group ::
    "'v DataFrame \<Rightarrow> ModelChoice \<Rightarrow> 'v option \<Rightarrow> 'v option list list \<Rightarrow> 'v option list list" where
  "tie_group df model_choice k rs = filter (\<lambda>r. ranking_key df model_choice r = k) rs"

text \<open>
  The order of a sorted key column: ascending or descending on the values that are there,
  and a missing value after every value that is there, in either direction.
\<close>

fun key_le :: "bool \<Rightarrow> 'v::linorder option \<Rightarrow> 'v option \<Rightarrow> bool" where
  "key_le ascending (Some x) (Some y) = (if ascending then x \<le> y else y \<le> x)"
| "key_le ascending (Some x) None = True"
| "key_le ascending None (Some y) = False"
| "key_le ascending None None = True"

text \<open>A key column with its missing values last: the present keys, then the missing ones.\<close>

definition missing_last :: "'v option list \<Rightarrow> bool" where
  "missing_last ks = (ks = filter (\<lambda>k. k \<noteq> None) ks @ filter (\<lambda>k. k = None) ks)"

text \<open>
  The positions \<open>nargsort\<close> computes for the present values listed in \<open>I\<close>: the sorting
  algorithm runs on their values and its result is read back through \<open>I\<close>.
\<close>

definition gather :: "('v list \<Rightarrow> nat list) \<Rightarrow> 'v option list \<Rightarrow> nat list \<Rightarrow> nat list" where
  "gather argsort items I = map (\<lambda>j. I ! j) (argsort (map (\<lambda>i. the (items ! i)) I))"

section \<open>Sorting algorithms and tables to run the model on\<close>

text \<open>
  A stable algorithm for \<open>argsort\<close> to run the selector with: insertion sort on the
  positions.
\<close>

definition insertion_argsort :: "'v::linorder list \<Rightarrow> nat list" where
  "insertion_argsort xs = sort_key (\<lambda>i. xs ! i) [0..<length xs]"

text \<open>A CSV writer for requests that never reach it (JSON responses and failures).\<close>

definition unused_csv :: "string list \<Rightarrow> rat option list list \<Rightarrow> string" where
  "unused_csv cols rs = []"

text \<open>
  The table of the specification's scenario, three customers of whom two share the
  highest probability, and its first two rows.
\<close>

definition scenario :: "rat DataFrame" where
  "scenario =
     \<lparr>columns = [''id'', ''prob_first_time_investor''],
      rows = [(0, [Some 1, Some (9/10)]), (1, [Some 2, Some (9/10)]), (2, [Some 3, Some (1/2)])]\<rparr>"

definition top_two :: "rat DataFrame" where
  "top_two =
     \<lparr>columns = [''id'', ''prob_first_time_investor''],
      rows = [(0, [Some 1, Some (9/10)]), (1, [Some 2, Some (9/10)])]\<rparr>"

definition scenario_json :: "rat json_value" where
  "scenario_json =
     JObject
       [(''model'', JString ''logistic_regression''),
        (''top_x'', JInt 2),
        (''count'', JInt 2),
        (''results'',
           JArray
             [JObject [(''id'', JScalar (Some 1)),
                       (''prob_first_time_investor'', JScalar (Some (9/10)))],
              JObject [(''id'', JScalar (Some 2)),
                       (''prob_first_time_investor'', JScalar (Some (9/10)))]])]"

text \<open>
  A file of twenty customers who all have the rank \<open>A\<close>, a text column, and the three rows
  the selector returns for it with numpy's quicksort.
\<close>

definition tiers :: "string DataFrame" where
  "tiers =
     \<lparr>columns = [''customer'', ''rank''],
      rows = [(0, [Some ''c00'', Some ''A'']),
              (1, [Some ''c01'', Some ''A'']),
              (2, [Some ''c02'', Some ''A'']),
              (3, [Some ''c03'', Some ''A'']),
              (4, [Some ''c04'', Some ''A'']),
              (5, [Some ''c05'', Some ''A'']),
              (6, [Some ''c06'', Some ''A'']),
              (7, [Some ''c07'', Some ''A'']),
              (8, [Some ''c08'', Some ''A'']),
              (9, [Some ''c09'', Some ''A'']),
              (10, [Some ''c10'', Some ''A'']),
              (11, [Some ''c11'', Some ''A'']),
              (12, [Some ''c12'', Some ''A'']),
              (13, [Some ''c13'', Some ''A'']),
              (14, [Some ''c14'', Some ''A'']),
              (15, [Some ''c15'', Some ''A'']),
              (16, [Some ''c16'', Some ''A'']),
              (17, [Some ''c17'', Some ''A'']),
              (18, [Some ''c18'', Some ''A'']),
              (19, [Some ''c19'', Some ''A''])]\<rparr>"

definition tiers_top :: "string DataFrame" where
  "tiers_top =
     \<lparr>columns = [''customer'', ''rank''],
      rows = [(0, [Some ''c00'', Some ''A'']), (1, [Some ''c17'', Some ''A'']),
              (2, [Some ''c16'', Some ''A''])]\<rparr>"

text \<open>A table with a \<open>rank\<close> column, one rank missing, and the table sorted by it.\<close>

definition ranked :: "rat DataFrame" where
  "ranked =
     \<lparr>columns = [''id'', ''rank''],
      rows = [(0, [Some 10, Some 3]), (1, [Some 11, None]),
              (2, [Some 12, Some 1]), (3, [Some 13, Some 2])]\<rparr>"

definition ranked_sorted :: "rat DataFrame" where
  "ranked_sorted =
     \<lparr>columns = [''id'', ''rank''],
      rows = [(0, [Some 12, Some 1]), (1, [Some 13, Some 2]),
              (2, [Some 10, Some 3]), (3, [Some 11, None])]\<rparr>"

text \<open>A table of the time-to-event model, the first risk missing, and the table sorted.\<close>

definition scored :: "rat DataFrame" where
  "scored =
     \<lparr>columns = [''id'', ''risk_6m''],
      rows = [(0, [Some 1, None]), (1, [Some 2, Some (1/5)]), (2, [Some 3, Some (7/10)])]\<rparr>"

definition scored_sorted :: "rat DataFrame" where
  "scored_sorted =
     \<lparr>columns = [''id'', ''risk_6m''],
      rows = [(0, [Some 3, Some (7/10)]), (1, [Some 2, Some (1/5)]), (2, [Some 1, None])]\<rparr>"

text \<open>A table with neither a rank nor a score column, and a file with a header only.\<close>

definition unranked :: "rat DataFrame" where
  "unranked = \<lparr>columns = [''id'', ''score''], rows = [(0, [Some 1, Some 5])]\<rparr>"

definition header_only :: "rat DataFrame" where
  "header_only = \<lparr>columns = [''id'', ''prob_first_time_investor''], rows = []\<rparr>"

text \<open>A file system whose only file is the one of the logistic regression model.\<close>

definition disk :: "rat csv_file \<Rightarrow> rat filesystem" where
  "disk f = [MODEL_FILES logistic_regression \<mapsto> f]"

section \<open>Lemmas\<close>

subsection \<open>What a sorting algorithm delivers\<close>

lemma argsort_ok_mset: "argsort_ok a \<Longrightarrow> mset (a xs) = mset [0..<length xs]"
  by (simp add: argsort_ok_def)

lemma argsort_ok_sorted: "argsort_ok a \<Longrightarrow> sorted (map (\<lambda>i. xs ! i) (a xs))"
  by (simp add: argsort_ok_def)

lemma argsort_ok_set: "argsort_ok a \<Longrightarrow> set (a xs) = {..<length xs}"
proof -
  assume "argsort_ok a"
  then have "set_mset (mset (a xs)) = set_mset (mset [0..<length xs])"
    by (simp add: argsort_ok_mset)
  then show ?thesis by (simp add: lessThan_atLeast0)
qed

lemma argsort_ok_insertion: "argsort_ok insertion_argsort"
  by (simp add: argsort_ok_def insertion_argsort_def sorted_sort_key)

lemma argsort_stable_insertion: "argsort_stable insertion_argsort"
  by (simp add: argsort_stable_def insertion_argsort_def sort_key_stable)

subsection \<open>The positions computed by nargsort\<close>

lemma nargsort_gather:
  "nargsort argsort items ascending =
     (if ascending then gather argsort items (filter (\<lambda>i. items ! i \<noteq> None) [0..<length items])
      else rev (gather argsort items (rev (filter (\<lambda>i. items ! i \<noteq> None) [0..<length items]))))
     @ filter (\<lambda>i. items ! i = None) [0..<length items]"
  by (simp add: nargsort_def gather_def Let_def rev_map)

lemma mset_gather:
  assumes "argsort_ok a"
  shows "mset (gather a items I) = mset I"
proof -
  let ?X = "map (\<lambda>i. the (items ! i)) I"
  have "mset (gather a items I) = image_mset (\<lambda>j. I ! j) (mset (a ?X))"
    by (simp add: gather_def)
  also have "\<dots> = image_mset (\<lambda>j. I ! j) (mset [0..<length I])"
    using argsort_ok_mset [OF assms, of ?X] by simp
  also have "\<dots> = mset (map (\<lambda>j. I ! j) [0..<length I])"
    by simp
  also have "\<dots> = mset I"
    by (simp add: map_nth)
  finally show ?thesis .
qed

lemma keys_gather:
  assumes ok: "argsort_ok a" and present: "\<forall>i\<in>set I. items ! i \<noteq> None"
  shows "map (\<lambda>i. items ! i) (gather a items I)
           = map Some (map (\<lambda>j. map (\<lambda>i. the (items ! i)) I ! j) (a (map (\<lambda>i. the (items ! i)) I)))"
proof -
  let ?X = "map (\<lambda>i. the (items ! i)) I"
  have "items ! (I ! j) = Some (?X ! j)" if "j \<in> set (a ?X)" for j
  proof -
    from that have j: "j < length I" using argsort_ok_set [OF ok, of ?X] by simp
    then have "I ! j \<in> set I" by simp
    with present have "items ! (I ! j) \<noteq> None" by blast
    with j show ?thesis by auto
  qed
  then show ?thesis by (simp add: gather_def)
qed

lemma filter_gather_stable:
  assumes ok: "argsort_ok a" and st: "argsort_stable a"
    and present: "\<forall>i\<in>set I. items ! i \<noteq> None"
  shows "filter (\<lambda>i. items ! i = Some k) (gather a items I) = filter (\<lambda>i. items ! i = Some k) I"
proof -
  let ?X = "map (\<lambda>i. the (items ! i)) I"
  have eq: "(items ! (I ! j) = Some k) = (?X ! j = k)" if "j < length I" for j
  proof -
    from that have "I ! j \<in> set I" by simp
    with present have "items ! (I ! j) \<noteq> None" by blast
    with that show ?thesis by auto
  qed
  have "filter (\<lambda>i. items ! i = Some k) (gather a items I)
          = map (\<lambda>j. I ! j) (filter (\<lambda>j. items ! (I ! j) = Some k) (a ?X))"
    by (simp add: gather_def filter_map comp_def)
  also have "filter (\<lambda>j. items ! (I ! j) = Some k) (a ?X) = filter (\<lambda>j. ?X ! j = k) (a ?X)"
    using argsort_ok_set [OF ok, of ?X] by (intro filter_cong refl eq) auto
  also have "\<dots> = filter (\<lambda>j. ?X ! j = k) [0..<length ?X]"
    using st by (simp add: argsort_stable_def)
  also have "\<dots> = filter (\<lambda>j. items ! (I ! j) = Some k) [0..<length I]"
    by (intro filter_cong) (auto simp: eq)
  also have "map (\<lambda>j. I ! j) \<dots> = filter (\<lambda>i. items ! i = Some k) (map (\<lambda>j. I ! j) [0..<length I])"
    by (simp add: filter_map comp_def)
  also have "\<dots> = filter (\<lambda>i. items ! i = Some k) I"
    by (simp add: map_nth)
  finally show ?thesis .
qed

lemma sorted_wrt_key_le_Some:
  "sorted_wrt (key_le True) (map Some xs) = sorted xs"
  "sorted_wrt (key_le False) (map Some xs) = sorted (rev xs)"
  by (induction xs) (auto simp: sorted_wrt_append sorted_append)

lemma sorted_wrt_key_le_append_None:
  assumes "sorted_wrt (key_le asc) ks" and "\<forall>k\<in>set ms. k = None"
  shows "sorted_wrt (key_le asc) (ks @ ms)"
proof -
  have "sorted_wrt (key_le asc) ms"
    using assms(2) by (induction ms) auto
  moreover have "key_le asc x y" if "y \<in> set ms" for x y
  proof -
    from that assms(2) have "y = None" by blast
    then show ?thesis by (cases x) simp_all
  qed
  ultimately show ?thesis using assms(1) by (simp add: sorted_wrt_append)
qed

lemma sorted_wrt_missing_last:
  "sorted_wrt (key_le asc) ks \<Longrightarrow> missing_last ks"
proof (induction ks)
  case Nil
  show ?case by (simp add: missing_last_def)
next
  case (Cons k ks)
  then have IH: "missing_last ks" by simp
  show ?case
  proof (cases k)
    case None
    have "y = None" if "y \<in> set ks" for y
    proof -
      from Cons.prems that have "key_le asc None y" by (simp add: None)
      then show ?thesis by (cases y) simp_all
    qed
    then have "filter (\<lambda>k. k \<noteq> None) ks = []" and "filter (\<lambda>k. k = None) ks = ks"
      by (auto simp: filter_empty_conv filter_id_conv)
    then show ?thesis by (simp add: missing_last_def None)
  next
    case (Some x)
    with IH show ?thesis by (simp add: missing_last_def)
  qed
qed

lemma present_filter: "\<forall>i\<in>set (filter (\<lambda>i. items ! i \<noteq> None) xs). items ! i \<noteq> None"
  by simp

lemma nargsort_mset:
  assumes "argsort_ok a"
  shows "mset (nargsort a items asc) = mset [0..<length items]"
proof -
  let ?P = "filter (\<lambda>i. items ! i \<noteq> None) [0..<length items]"
  let ?N = "filter (\<lambda>i. items ! i = None) [0..<length items]"
  have "mset (nargsort a items asc) = mset ?P + mset ?N"
    by (simp add: nargsort_gather mset_gather [OF assms])
  also have "\<dots> = filter_mset (\<lambda>i. items ! i \<noteq> None) (mset [0..<length items])
                    + filter_mset (\<lambda>i. \<not> items ! i \<noteq> None) (mset [0..<length items])"
    by simp
  also have "\<dots> = mset [0..<length items]"
    by (rule multiset_partition [symmetric])
  finally show ?thesis .
qed

lemma nargsort_set:
  assumes "argsort_ok a"
  shows "set (nargsort a items asc) = {..<length items}"
proof -
  have "set_mset (mset (nargsort a items asc)) = set_mset (mset [0..<length items])"
    by (simp only: nargsort_mset [OF assms])
  then show ?thesis by (simp add: lessThan_atLeast0)
qed

lemma nargsort_keys_sorted:
  assumes ok: "argsort_ok a"
  shows "sorted_wrt (key_le asc) (map (\<lambda>i. items ! i) (nargsort a items asc))"
proof -
  let ?P = "filter (\<lambda>i. items ! i \<noteq> None) [0..<length items]"
  let ?N = "filter (\<lambda>i. items ! i = None) [0..<length items]"
  have nones: "\<forall>k\<in>set (map (\<lambda>i. items ! i) ?N). k = None" by simp
  show ?thesis
  proof (cases asc)
    case True
    have "sorted_wrt (key_le True) (map (\<lambda>i. items ! i) (gather a items ?P))"
      by (simp only: keys_gather [OF ok present_filter] sorted_wrt_key_le_Some
            argsort_ok_sorted [OF ok])
    from sorted_wrt_key_le_append_None [OF this nones] True show ?thesis
      by (simp add: nargsort_gather)
  next
    case False
    let ?X = "map (\<lambda>i. the (items ! i)) (rev ?P)"
    let ?ys = "map (\<lambda>j. ?X ! j) (a ?X)"
    have "\<forall>i\<in>set (rev ?P). items ! i \<noteq> None" by simp
    then have "map (\<lambda>i. items ! i) (gather a items (rev ?P)) = map Some ?ys"
      by (rule keys_gather [OF ok])
    then have "rev (map (\<lambda>i. items ! i) (gather a items (rev ?P))) = rev (map Some ?ys)"
      by (rule arg_cong)
    then have "map (\<lambda>i. items ! i) (rev (gather a items (rev ?P))) = map Some (rev ?ys)"
      unfolding rev_map .
    moreover have "sorted_wrt (key_le False) (map Some (rev ?ys))"
      by (simp only: sorted_wrt_key_le_Some rev_rev_ident argsort_ok_sorted [OF ok])
    ultimately
    have "sorted_wrt (key_le False) (map (\<lambda>i. items ! i) (rev (gather a items (rev ?P))))"
      by simp
    from sorted_wrt_key_le_append_None [OF this nones] False show ?thesis
      by (simp add: nargsort_gather)
  qed
qed

lemma nargsort_missing:
  assumes ok: "argsort_ok a"
  shows "filter (\<lambda>i. items ! i = None) (nargsort a items asc)
           = filter (\<lambda>i. items ! i = None) [0..<length items]"
proof -
  let ?P = "filter (\<lambda>i. items ! i \<noteq> None) [0..<length items]"
  have "set (gather a items I) = set I" for I
    using mset_gather [OF ok, of items I] by (metis set_mset_mset)
  then have "filter (\<lambda>i. items ! i = None) (gather a items ?P) = []"
    and "filter (\<lambda>i. items ! i = None) (gather a items (rev ?P)) = []"
    by (auto simp: filter_empty_conv)
  then show ?thesis
    by (simp add: nargsort_gather rev_filter [symmetric])
qed

lemma filter_Some_missing:
  "filter (\<lambda>i. items ! i = Some v) (filter (\<lambda>i. items ! i = None) xs) = []"
  by (induction xs) auto

lemma filter_Some_present:
  "filter (\<lambda>i. items ! i = Some v) (filter (\<lambda>i. items ! i \<noteq> None) xs)
     = filter (\<lambda>i. items ! i = Some v) xs"
  by (induction xs) auto

lemma nargsort_stable:
  assumes ok: "argsort_ok a" and st: "argsort_stable a"
  shows "filter (\<lambda>i. items ! i = k) (nargsort a items asc)
           = filter (\<lambda>i. items ! i = k) [0..<length items]"
proof (cases k)
  case None
  then show ?thesis by (simp add: nargsort_missing [OF ok])
next
  case (Some v)
  let ?P = "filter (\<lambda>i. items ! i \<noteq> None) [0..<length items]"
  let ?N = "filter (\<lambda>i. items ! i = None) [0..<length items]"
  let ?G = "if asc then gather a items ?P else rev (gather a items (rev ?P))"
  have "filter (\<lambda>i. items ! i = Some v) ?G = filter (\<lambda>i. items ! i = Some v) ?P"
  proof (cases asc)
    case True
    then show ?thesis
      using filter_gather_stable [OF ok st present_filter, where k = v] by simp
  next
    case False
    have present: "\<forall>i\<in>set (rev ?P). items ! i \<noteq> None" by simp
    have "filter (\<lambda>i. items ! i = Some v) (rev (gather a items (rev ?P)))
            = rev (filter (\<lambda>i. items ! i = Some v) (gather a items (rev ?P)))"
      by (rule rev_filter [symmetric])
    also have "\<dots> = rev (filter (\<lambda>i. items ! i = Some v) (rev ?P))"
      by (simp only: filter_gather_stable [OF ok st present])
    also have "\<dots> = filter (\<lambda>i. items ! i = Some v) ?P"
      by (simp only: rev_filter [symmetric] rev_rev_ident)
    finally show ?thesis using False by simp
  qed
  moreover have "nargsort a items asc = ?G @ ?N"
    by (simp add: nargsort_gather)
  ultimately have "filter (\<lambda>i. items ! i = Some v) (nargsort a items asc)
                     = filter (\<lambda>i. items ! i = Some v) ?P @ filter (\<lambda>i. items ! i = Some v) ?N"
    by (simp only: filter_append)
  then show ?thesis
    by (simp only: Some filter_Some_missing filter_Some_present append_Nil2)
qed

subsection \<open>Slices\<close>

lemma map_py_take: "map f (py_take n xs) = py_take n (map f xs)"
  by (simp add: py_take_def take_map)

lemma sorted_wrt_py_take: "sorted_wrt P xs \<Longrightarrow> sorted_wrt P (py_take n xs)"
  by (simp add: py_take_def sorted_wrt_take)

lemma prefix_filter_take: "prefix (filter P (take m xs)) (filter P xs)"
proof -
  have "filter P xs = filter P (take m xs) @ filter P (drop m xs)"
    by (metis append_take_drop_id filter_append)
  then show ?thesis by (metis prefixI)
qed

lemma prefix_filter_py_take: "prefix (filter P (py_take n xs)) (filter P xs)"
  by (simp add: py_take_def prefix_filter_take)

lemma length_py_take: "0 \<le> n \<Longrightarrow> length (py_take n xs) = min (nat n) (length xs)"
  by (simp add: py_take_def min_def)

lemma py_take_all: "int (length xs) \<le> n \<Longrightarrow> py_take n xs = xs"
  by (simp add: py_take_def)

subsection \<open>Frames under head, reset_index and sort_values\<close>

lemma cells_reset_index: "cells (reset_index df) = cells df"
  by (simp add: cells_def reset_index_def enumerate_eq_zip)

lemma columns_reset_index: "columns (reset_index df) = columns df"
  by (simp add: reset_index_def)

lemma column_cells: "column df c = map (cell (columns df) c) (cells df)"
  by (simp add: column_def cells_def)

lemma column_reset_index: "column (reset_index df) c = column df c"
  by (simp add: column_cells cells_reset_index columns_reset_index)

lemma len_cells: "len df = length (cells df)"
  by (simp add: len_def cells_def)

lemma cells_head: "cells (head df n) = py_take n (cells df)"
  by (simp add: cells_def head_def map_py_take)

lemma columns_head: "columns (head df n) = columns df"
  by (simp add: head_def)

lemma column_head: "column (head df n) c = py_take n (column df c)"
  by (simp add: column_cells cells_head columns_head map_py_take)

lemma columns_sort_values: "columns (sort_values a df c asc) = columns df"
  by (simp add: sort_values_def)

lemma length_column: "length (column df c) = length (rows df)"
  by (simp add: column_def)

lemma cells_sort_values:
  assumes "argsort_ok a"
  shows "cells (sort_values a df c asc) = map (\<lambda>i. cells df ! i) (nargsort a (column df c) asc)"
proof -
  have "snd (rows df ! i) = cells df ! i" if "i \<in> set (nargsort a (column df c) asc)" for i
    using that nargsort_set [OF assms, of "column df c" asc]
    by (simp add: cells_def length_column)
  then show ?thesis by (simp add: cells_def sort_values_def)
qed

lemma column_sort_values:
  assumes "argsort_ok a"
  shows "column (sort_values a df c asc) c'
           = map (\<lambda>i. column df c' ! i) (nargsort a (column df c) asc)"
proof -
  have "cell (columns df) c' (cells df ! i) = column df c' ! i"
    if "i \<in> set (nargsort a (column df c) asc)" for i
    using that nargsort_set [OF assms, of "column df c" asc]
    by (simp add: column_cells cells_def length_column)
  then show ?thesis
    by (simp add: column_cells cells_sort_values [OF assms] columns_sort_values)
qed

lemma mset_cells_sort_values:
  assumes "argsort_ok a"
  shows "mset (cells (sort_values a df c asc)) = mset (cells df)"
proof -
  have "mset (cells (sort_values a df c asc))
          = image_mset (\<lambda>i. cells df ! i) (mset (nargsort a (column df c) asc))"
    by (simp add: cells_sort_values [OF assms])
  also have "\<dots> = image_mset (\<lambda>i. cells df ! i) (mset [0..<length (cells df)])"
    by (simp add: nargsort_mset [OF assms] length_column cells_def)
  also have "\<dots> = mset (map (\<lambda>i. cells df ! i) [0..<length (cells df)])"
    by simp
  also have "\<dots> = mset (cells df)"
    by (simp add: map_nth)
  finally show ?thesis .
qed

lemma length_cells_sort_values:
  assumes "argsort_ok a"
  shows "length (cells (sort_values a df c asc)) = length (cells df)"
  using mset_cells_sort_values [OF assms, of df c asc] by (metis size_mset)

lemma sorted_column_sort_values:
  assumes "argsort_ok a"
  shows "sorted_wrt (key_le asc) (column (sort_values a df c asc) c)"
  by (simp only: column_sort_values [OF assms] nargsort_keys_sorted [OF assms])

lemma filter_cells_sort_values:
  assumes ok: "argsort_ok a"
    and keep: "filter (\<lambda>i. column df c ! i = k) (nargsort a (column df c) asc)
                 = filter (\<lambda>i. column df c ! i = k) [0..<length (column df c)]"
  shows "filter (\<lambda>r. cell (columns df) c r = k) (cells (sort_values a df c asc))
           = filter (\<lambda>r. cell (columns df) c r = k) (cells df)"
proof -
  let ?n = "length (cells df)"
  have n: "length (column df c) = ?n" by (simp add: column_cells)
  have key: "cell (columns df) c (cells df ! i) = column df c ! i" if "i < ?n" for i
    using that by (simp add: column_cells)
  have "filter (\<lambda>r. cell (columns df) c r = k) (cells (sort_values a df c asc))
          = map (\<lambda>i. cells df ! i)
              (filter (\<lambda>i. cell (columns df) c (cells df ! i) = k) (nargsort a (column df c) asc))"
    by (simp add: cells_sort_values [OF ok] filter_map comp_def)
  also have "filter (\<lambda>i. cell (columns df) c (cells df ! i) = k) (nargsort a (column df c) asc)
               = filter (\<lambda>i. column df c ! i = k) (nargsort a (column df c) asc)"
    using nargsort_set [OF ok, of "column df c" asc] n
    by (intro filter_cong refl) (simp add: key)
  also have "\<dots> = filter (\<lambda>i. column df c ! i = k) [0..<?n]"
    using keep n by simp
  also have "\<dots> = filter (\<lambda>i. cell (columns df) c (cells df ! i) = k) [0..<?n]"
    by (intro filter_cong refl) (simp add: key)
  also have "map (\<lambda>i. cells df ! i) \<dots>
               = filter (\<lambda>r. cell (columns df) c r = k) (map (\<lambda>i. cells df ! i) [0..<?n])"
    by (simp add: filter_map comp_def)
  also have "\<dots> = filter (\<lambda>r. cell (columns df) c r = k) (cells df)"
    by (simp add: map_nth)
  finally show ?thesis .
qed

lemma tie_group_sort_values:
  assumes ok: "argsort_ok a"
    and keep: "filter (\<lambda>i. column df (ranking_column df m) ! i = k)
                 (nargsort a (column df (ranking_column df m)) asc)
               = filter (\<lambda>i. column df (ranking_column df m) ! i = k)
                   [0..<length (column df (ranking_column df m))]"
  shows "tie_group df m k (cells (sort_values a df (ranking_column df m) asc))
           = tie_group df m k (cells df)"
  unfolding tie_group_def ranking_key_def
  by (rule filter_cells_sort_values [OF ok keep])

subsection \<open>The branches of the selector\<close>

lemma ranking_column_score:
  "ranking_column df m = (if ''rank'' \<in> set (columns df) then ''rank'' else score_column m)"
  by (simp add: ranking_column_def score_column_def)

lemma top_rows_Inr:
  assumes "ranking_column df m \<in> set (columns df)"
  shows "top_rows a df m n
           = Inr (reset_index (head (sort_values a df (ranking_column df m)
                    (''rank'' \<in> set (columns df))) n))"
  using assms unfolding top_rows_def ranking_column_def by (simp split: if_splits)

lemma top_rows_Inl:
  assumes "ranking_column df m \<notin> set (columns df)"
  shows "top_rows a df m n
           = Inl (HTTPException 422
               (''Expected column '' @ quoted (ranking_column df m) @ '' was not found.''))"
  using assms unfolding top_rows_def ranking_column_def by (simp split: if_splits)

lemma top_rows_cells:
  assumes "top_rows a df m n = Inr out"
  shows "cells out = py_take n (cells (sort_values a df (ranking_column df m)
                      (''rank'' \<in> set (columns df))))
         \<and> columns out = columns df
         \<and> ranking_column df m \<in> set (columns df)"
proof (cases "ranking_column df m \<in> set (columns df)")
  case True
  from assms top_rows_Inr [OF True, of a n] show ?thesis
    by (auto simp: cells_reset_index cells_head columns_reset_index columns_head
          columns_sort_values True)
next
  case False
  from assms top_rows_Inl [OF False, of a n] show ?thesis by simp
qed

subsection \<open>The loader and the handler\<close>

lemma load_predictions_missing:
  assumes "fs (MODEL_FILES m) = None"
  shows "load_predictions fs m
           = Inl (HTTPException 404
               (''Prediction file not found for model '' @ quoted (model_value m) @ '': ''
                  @ path_name (MODEL_FILES m)))"
  using assms by (simp add: load_predictions_def path_exists_def)

lemma load_predictions_malformed:
  assumes "fs (MODEL_FILES m) = Some (Malformed error)"
  shows "load_predictions fs m
           = Inl (HTTPException 500
               (''Failed to read prediction file '' @ quoted (path_name (MODEL_FILES m))
                  @ '': '' @ error))"
  using assms by (simp add: load_predictions_def path_exists_def read_csv_def)

lemma load_predictions_table:
  assumes "fs (MODEL_FILES m) = Some (Table df)"
  shows "load_predictions fs m
           = (if empty_df df then
                Inl (HTTPException 404
                  (''Prediction file '' @ quoted (path_name (MODEL_FILES m)) @ '' is empty.''))
              else Inr df)"
  using assms by (simp add: load_predictions_def path_exists_def read_csv_def)

lemma load_predictions_Inr:
  assumes "load_predictions fs m = Inr df"
  shows "fs (MODEL_FILES m) = Some (Table df) \<and> \<not> empty_df df"
  using assms
  by (auto simp: load_predictions_def path_exists_def read_csv_def Let_def
        split: if_splits option.splits csv_file.splits sum.splits)

lemma get_predictions_load_failure:
  assumes "Query_int 1000 1 100000 t = Inr n" and "load_predictions fs m = Inl e"
  shows "get_predictions a w fs m t out = Inl e"
  using assms by (simp add: get_predictions_def)

lemma get_predictions_select_failure:
  assumes "Query_int 1000 1 100000 t = Inr n" and "load_predictions fs m = Inr df"
    and "top_rows a df m n = Inl e"
  shows "get_predictions a w fs m t out = Inl e"
  using assms by (simp add: get_predictions_def)

lemma get_predictions_Inr:
  assumes "get_predictions a w fs m t out = Inr response"
  shows "\<exists>n df top_df.
           Query_int 1000 1 100000 t = Inr n
           \<and> load_predictions fs m = Inr df
           \<and> top_rows a df m n = Inr top_df
           \<and> response =
               (if Query_enum json out = csv then
                  PlainTextResponse (w (columns top_df) (cells top_df)) ''text/csv''
                    [(''Content-Disposition'',
                      ''attachment; filename='' @ model_value m @ ''_top_'' @ str_int n @ ''.csv'')]
                else JSONResponse (json_content m n top_df))"
  using assms
  by (auto simp: get_predictions_def new_JSONResponse_def Let_def split: sum.splits if_splits)

lemma Query_int_Inr:
  assumes "Query_int d lo hi t = Inr n"
  shows "n = (case t of None \<Rightarrow> d | Some v \<Rightarrow> v) \<and> (t \<noteq> None \<longrightarrow> lo \<le> n \<and> n \<le> hi)"
  using assms by (auto simp: Query_int_def split: option.splits if_splits)

lemma empty_message_silent:
  "\<not> sublist (model_value m) (''Prediction file '' @ quoted (path_name (MODEL_FILES m)) @ '' is empty.'')"
proof (cases m)
  case logistic_regression
  have "\<not> sublist (model_value logistic_regression)
          (''Prediction file '' @ quoted (path_name (MODEL_FILES logistic_regression))
             @ '' is empty.'')"
    by code_simp
  with logistic_regression show ?thesis by simp
next
  case xgboost
  have "\<not> sublist (model_value xgboost)
          (''Prediction file '' @ quoted (path_name (MODEL_FILES xgboost)) @ '' is empty.'')"
    by code_simp
  with xgboost show ?thesis by simp
next
  case weibull_tte_rnn
  have "\<not> sublist (model_value weibull_tte_rnn)
          (''Prediction file '' @ quoted (path_name (MODEL_FILES weibull_tte_rnn))
             @ '' is empty.'')"
    by code_simp
  with weibull_tte_rnn show ?thesis by simp
qed

subsection \<open>Runs on the tables\<close>

lemma scenario_request:
  "get_predictions insertion_argsort unused_csv (disk (Table scenario)) logistic_regression
     (Some 2) (Some json) = Inr (JSONResponse scenario_json)"
  by code_simp

lemma scenario_load:
  "load_predictions (disk (Table scenario)) logistic_regression = Inr scenario"
  by code_simp

lemma scenario_top_two:
  "top_rows insertion_argsort scenario logistic_regression 2 = Inr top_two"
  by code_simp

lemma scenario_all_run:
  "top_rows insertion_argsort scenario xgboost 5 = Inr scenario"
  by code_simp

text \<open>
  numpy's quicksort on short arrays is its insertion sort: four equal values stay where
  they are, and the selector run with it returns the scenario's first two customers in
  file order.
\<close>

lemma npy_aquicksort_short:
  "npy_aquicksort [1::nat, 1, 1, 1] = [0, 1, 2, 3]
   \<and> npy_aquicksort [1/2 :: rat, 9/10, 9/10] = [0, 1, 2]"
  by code_simp

lemma scenario_numpy_run:
  "top_rows npy_aquicksort scenario logistic_regression 2 = Inr top_two"
  by code_simp

lemma ranked_run:
  "top_rows insertion_argsort ranked weibull_tte_rnn 10 = Inr ranked_sorted"
  by code_simp

lemma scored_run:
  "top_rows insertion_argsort scored weibull_tte_rnn 1000 = Inr scored_sorted"
  by code_simp

text \<open>
  The selector sorts the row without a risk to the end and keeps it; it is the JSON
  response carrying such a row that fails, when it is constructed.
\<close>

lemma scored_json_request:
  "get_predictions insertion_argsort unused_csv [MODEL_FILES weibull_tte_rnn \<mapsto> Table scored]
     weibull_tte_rnn None None
     = Inl (ValueError ''Out of range float values are not JSON compliant'')"
  by code_simp

section \<open>Properties\<close>

text \<open>
  C1. The selector leaves the sorting algorithm at pandas' default, quicksort, which is
  not stable, so the order of rows with equal keys is the algorithm's. What holds for
  every algorithm that sorts: the rows of the output with a given ranking key are among
  the rows of the table with that key, and the rows whose key is missing keep the order of
  the file. The rows with equal present keys keep the order of the file when the algorithm
  is stable.
\<close>

theorem tie_order:
  assumes ok: "argsort_ok argsort"
    and out: "top_rows argsort df model_choice top_x = Inr out"
  shows "mset (tie_group df model_choice k (cells out))
           \<subseteq># mset (tie_group df model_choice k (cells df))
         \<and> prefix (tie_group df model_choice None (cells out))
                  (tie_group df model_choice None (cells df))
         \<and> (argsort_stable argsort \<longrightarrow>
              prefix (tie_group df model_choice k (cells out))
                     (tie_group df model_choice k (cells df)))"
proof -
  let ?S = "sort_values argsort df (ranking_column df model_choice) (''rank'' \<in> set (columns df))"
  from top_rows_cells [OF out] have cells: "cells out = py_take top_x (cells ?S)" by simp
  have pre: "prefix (tie_group df model_choice j (cells out)) (tie_group df model_choice j (cells ?S))"
    for j
    by (simp add: tie_group_def cells prefix_filter_py_take)
  have "mset (tie_group df model_choice k (cells out))
          \<subseteq># mset (tie_group df model_choice k (cells ?S))"
    using pre [of k] by (auto simp: prefix_def)
  also have "mset (tie_group df model_choice k (cells ?S))
               = mset (tie_group df model_choice k (cells df))"
    by (simp add: tie_group_def mset_cells_sort_values [OF ok])
  finally have first: "mset (tie_group df model_choice k (cells out))
                         \<subseteq># mset (tie_group df model_choice k (cells df))" .
  have "tie_group df model_choice None (cells ?S) = tie_group df model_choice None (cells df)"
    by (rule tie_group_sort_values [OF ok nargsort_missing [OF ok]])
  with pre [of None] have second: "prefix (tie_group df model_choice None (cells out))
                                          (tie_group df model_choice None (cells df))"
    by simp
  have third: "prefix (tie_group df model_choice k (cells out))
                      (tie_group df model_choice k (cells df))" if st: "argsort_stable argsort"
  proof -
    have "tie_group df model_choice k (cells ?S) = tie_group df model_choice k (cells df)"
      by (rule tie_group_sort_values [OF ok nargsort_stable [OF ok st]])
    with pre [of k] show ?thesis by simp
  qed
  from first second third show ?thesis by blast
qed

theorem tie_order_witness:
  "argsort_ok (insertion_argsort :: rat list \<Rightarrow> nat list)
   \<and> argsort_stable (insertion_argsort :: rat list \<Rightarrow> nat list)
   \<and> top_rows insertion_argsort scenario logistic_regression 2 = Inr top_two
   \<and> prefix (tie_group scenario logistic_regression (Some (9/10)) (cells top_two))
             (tie_group scenario logistic_regression (Some (9/10)) (cells scenario))"
proof -
  from tie_order [OF argsort_ok_insertion scenario_top_two, of "Some (9/10)"]
  show ?thesis
    using argsort_ok_insertion argsort_stable_insertion scenario_top_two by blast
qed

text \<open>
  Twenty customers with the same rank are more than insertion sort is used for: numpy's
  quicksort partitions the positions \<open>0..19\<close> once, around position 9, and the partition
  swaps the positions 1 and 17, 2 and 16, up to 8 and 10. The first three rows of the
  sorted table are the customers c00, c17 and c16, not the first three of the file.
\<close>

theorem stable_sort_counterexample:
  "column tiers ''rank'' = replicate 20 (Some ''A'')
   \<and> nargsort npy_aquicksort (column tiers ''rank'') True
       = [0, 17, 16, 15, 14, 13, 12, 11, 10, 9, 8, 7, 6, 5, 4, 3, 2, 1, 18, 19]
   \<and> top_rows npy_aquicksort tiers weibull_tte_rnn 3 = Inr tiers_top
   \<and> tie_group tiers weibull_tte_rnn (Some ''A'') (cells tiers_top)
       = [[Some ''c00'', Some ''A''], [Some ''c17'', Some ''A''], [Some ''c16'', Some ''A'']]
   \<and> take 3 (tie_group tiers weibull_tte_rnn (Some ''A'') (cells tiers))
       = [[Some ''c00'', Some ''A''], [Some ''c01'', Some ''A''], [Some ''c02'', Some ''A'']]
   \<and> \<not> prefix (tie_group tiers weibull_tte_rnn (Some ''A'') (cells tiers_top))
               (tie_group tiers weibull_tte_rnn (Some ''A'') (cells tiers))"
proof -
  have "column tiers ''rank'' = replicate 20 (Some ''A'')"
    by code_simp
  moreover
  have "nargsort npy_aquicksort (column tiers ''rank'') True
          = [0, 17, 16, 15, 14, 13, 12, 11, 10, 9, 8, 7, 6, 5, 4, 3, 2, 1, 18, 19]"
    by code_simp
  moreover
  have "top_rows npy_aquicksort tiers weibull_tte_rnn 3 = Inr tiers_top"
    by code_simp
  moreover
  have "tie_group tiers weibull_tte_rnn (Some ''A'') (cells tiers_top)
          = [[Some ''c00'', Some ''A''], [Some ''c17'', Some ''A''], [Some ''c16'', Some ''A'']]"
    by code_simp
  moreover
  have "take 3 (tie_group tiers weibull_tte_rnn (Some ''A'') (cells tiers))
          = [[Some ''c00'', Some ''A''], [Some ''c01'', Some ''A''], [Some ''c02'', Some ''A'']]"
    by code_simp
  moreover
  have "\<not> prefix (tie_group tiers weibull_tte_rnn (Some ''A'') (cells tiers_top))
                 (tie_group tiers weibull_tte_rnn (Some ''A'') (cells tiers))"
    by code_simp
  ultimately show ?thesis by blast
qed

text \<open>
  C2. The output of the selector is sorted by the column of its branch: with a \<open>rank\<close>
  column non-decreasing in \<open>rank\<close>, else non-increasing in \<open>prob_first_time_investor\<close>
  for logistic_regression and xgboost and in \<open>risk_6m\<close> for weibull_tte_rnn. Rows that
  have no value in the column follow the rows that have one.
\<close>

theorem top_rows_sorted:
  assumes ok: "argsort_ok argsort"
    and out: "top_rows argsort df model_choice top_x = Inr out"
  shows "if ''rank'' \<in> set (columns df) then
           sorted_wrt (key_le True) (column out ''rank'')
         else if model_choice \<in> {logistic_regression, xgboost} then
           sorted_wrt (key_le False) (column out ''prob_first_time_investor'')
         else
           sorted_wrt (key_le False) (column out ''risk_6m'')"
proof -
  let ?c = "ranking_column df model_choice"
  let ?asc = "''rank'' \<in> set (columns df)"
  from top_rows_cells [OF out]
  have "column out ?c = py_take top_x (column (sort_values argsort df ?c ?asc) ?c)"
    by (simp add: column_cells map_py_take columns_sort_values)
  then have "sorted_wrt (key_le ?asc) (column out ?c)"
    by (simp add: sorted_wrt_py_take sorted_column_sort_values [OF ok])
  then show ?thesis
    by (auto simp: ranking_column_def split: if_splits)
qed

theorem top_rows_sorted_witness:
  "top_rows insertion_argsort ranked weibull_tte_rnn 10 = Inr ranked_sorted
   \<and> column ranked_sorted ''rank'' = [Some 1, Some 2, Some 3, None]
   \<and> sorted_wrt (key_le True) (column ranked_sorted ''rank'')"
proof -
  have "''rank'' \<in> set (columns ranked)" by (simp add: ranked_def)
  with top_rows_sorted [OF argsort_ok_insertion ranked_run]
  have "sorted_wrt (key_le True) (column ranked_sorted ''rank'')" by simp
  moreover have "column ranked_sorted ''rank'' = [Some 1, Some 2, Some 3, None]"
    by code_simp
  ultimately show ?thesis using ranked_run by blast
qed

text \<open>
  C3. A successful request went through the loader and the selector with a \<open>top_x\<close>
  between 1 and 100000, and the table it returns has at least one row, at most \<open>top_x\<close>
  rows and at most the rows of the backing table.
\<close>

theorem returned_table_size:
  assumes ok: "argsort_ok argsort"
    and success: "get_predictions argsort to_csv fs model top_x_param output_param = Inr response"
  shows "\<exists>top_x df top_df.
           Query_int 1000 1 100000 top_x_param = Inr top_x \<and> 1 \<le> top_x \<and> top_x \<le> 100000
           \<and> load_predictions fs model = Inr df
           \<and> top_rows argsort df model top_x = Inr top_df
           \<and> response =
               (if Query_enum json output_param = csv then
                  PlainTextResponse (to_csv (columns top_df) (cells top_df)) ''text/csv''
                    [(''Content-Disposition'',
                      ''attachment; filename='' @ model_value model @ ''_top_'' @ str_int top_x
                        @ ''.csv'')]
                else JSONResponse (json_content model top_x top_df))
           \<and> 1 \<le> len top_df \<and> int (len top_df) \<le> top_x \<and> len top_df \<le> len df"
proof -
  from get_predictions_Inr [OF success] obtain top_x df top_df where
    q: "Query_int 1000 1 100000 top_x_param = Inr top_x"
    and load: "load_predictions fs model = Inr df"
    and sel: "top_rows argsort df model top_x = Inr top_df"
    and resp: "response =
               (if Query_enum json output_param = csv then
                  PlainTextResponse (to_csv (columns top_df) (cells top_df)) ''text/csv''
                    [(''Content-Disposition'',
                      ''attachment; filename='' @ model_value model @ ''_top_'' @ str_int top_x
                        @ ''.csv'')]
                else JSONResponse (json_content model top_x top_df))"
    by blast
  from q have range: "1 \<le> top_x \<and> top_x \<le> 100000"
    by (auto simp: Query_int_def split: option.splits if_splits)
  from load_predictions_Inr [OF load] have "rows df \<noteq> []"
    by (simp add: empty_df_def)
  then have nonempty: "1 \<le> length (cells df)"
    by (cases "rows df") (simp_all add: cells_def)
  let ?S = "sort_values argsort df (ranking_column df model) (''rank'' \<in> set (columns df))"
  from top_rows_cells [OF sel] have "cells top_df = py_take top_x (cells ?S)"
    by simp
  then have "length (cells top_df) = min (nat top_x) (length (cells df))"
    using range by (simp add: length_py_take length_cells_sort_values [OF ok])
  with range nonempty
  have "1 \<le> len top_df \<and> int (len top_df) \<le> top_x \<and> len top_df \<le> len df"
    by (auto simp: len_cells)
  with q range load sel resp show ?thesis by blast
qed

theorem returned_table_size_witness:
  "get_predictions insertion_argsort unused_csv (disk (Table scenario)) logistic_regression
     (Some 2) (Some json) = Inr (JSONResponse scenario_json)
   \<and> load_predictions (disk (Table scenario)) logistic_regression = Inr scenario
   \<and> top_rows insertion_argsort scenario logistic_regression 2 = Inr top_two
   \<and> 1 \<le> len top_two \<and> int (len top_two) \<le> 2 \<and> len top_two \<le> len scenario"
proof -
  from returned_table_size [OF argsort_ok_insertion scenario_request]
  obtain top_x df top_df where
    "Query_int 1000 1 100000 (Some 2) = Inr top_x"
    "load_predictions (disk (Table scenario)) logistic_regression = Inr df"
    "top_rows insertion_argsort df logistic_regression top_x = Inr top_df"
    "1 \<le> len top_df \<and> int (len top_df) \<le> top_x \<and> len top_df \<le> len df"
    by blast
  moreover have "Query_int 1000 1 100000 (Some 2) = Inr 2"
    by (simp add: Query_int_def)
  ultimately have "1 \<le> len top_two \<and> int (len top_two) \<le> 2 \<and> len top_two \<le> len scenario"
    using scenario_load scenario_top_two by simp
  with scenario_request scenario_load scenario_top_two show ?thesis by blast
qed

text \<open>
  C4. For a table that has the column of its branch (a \<open>rank\<close> column or the score column
  of the model), a \<open>top_x\<close> above the number of rows is no failure: the selector returns
  every row of the table, and as many rows as the table has.
\<close>

theorem oversized_top_x:
  assumes ok: "argsort_ok argsort"
    and has: "''rank'' \<in> set (columns df) \<or> score_column model_choice \<in> set (columns df)"
    and big: "int (len df) < top_x"
  shows "\<exists>out. top_rows argsort df model_choice top_x = Inr out
           \<and> len out = len df \<and> mset (cells out) = mset (cells df)"
proof -
  let ?c = "ranking_column df model_choice"
  let ?S = "sort_values argsort df ?c (''rank'' \<in> set (columns df))"
  let ?out = "reset_index (head ?S top_x)"
  from has have "?c \<in> set (columns df)"
    by (auto simp: ranking_column_score)
  then have run: "top_rows argsort df model_choice top_x = Inr ?out"
    by (rule top_rows_Inr)
  have "int (length (cells ?S)) \<le> top_x"
    using big by (simp add: length_cells_sort_values [OF ok] len_cells)
  then have "cells ?out = cells ?S"
    by (simp add: cells_reset_index cells_head py_take_all)
  then have "mset (cells ?out) = mset (cells df)" and "len ?out = len df"
    by (simp_all add: mset_cells_sort_values [OF ok] len_cells length_cells_sort_values [OF ok])
  with run show ?thesis by blast
qed

theorem oversized_top_x_witness:
  "int (len scenario) < 5 \<and> top_rows insertion_argsort scenario xgboost 5 = Inr scenario"
proof -
  have has: "''rank'' \<in> set (columns scenario) \<or> score_column xgboost \<in> set (columns scenario)"
    by (simp add: scenario_def score_column_def)
  have big: "int (len scenario) < 5" by (simp add: scenario_def len_def)
  from oversized_top_x [OF argsort_ok_insertion has big] scenario_all_run big
  show ?thesis by simp
qed

text \<open>
  A loaded table that has neither column fails in the selector with 422 whatever
  \<open>top_x\<close> is, also when \<open>top_x\<close> is above its number of rows.
\<close>

theorem oversized_top_x_counterexample:
  "\<not> empty_df unranked \<and> int (len unranked) < 5
   \<and> top_rows insertion_argsort unranked xgboost 5
       = Inl (HTTPException 422 ''Expected column 'prob_first_time_investor' was not found.'')"
  by code_simp

text \<open>
  C5. For a valid \<open>top_x\<close>: a missing file and a table without rows end the request with
  404; a file that fails to parse ends it with 500 and a detail that contains the text of
  the parse failure; a table with neither a \<open>rank\<close> column nor the score column of the
  model fails in the selector with 422 and a detail that contains the name of the score
  column, and so ends the request when the table was loaded.
\<close>

theorem failure_classes:
  assumes valid: "Query_int 1000 1 100000 top_x_param = Inr top_x"
  shows "(fs (MODEL_FILES model) = None \<longrightarrow>
            get_predictions argsort to_csv fs model top_x_param output_param
              = Inl (HTTPException 404
                  (''Prediction file not found for model '' @ quoted (model_value model)
                     @ '': '' @ path_name (MODEL_FILES model))))
       \<and> (\<forall>df. fs (MODEL_FILES model) = Some (Table df) \<and> rows df = [] \<longrightarrow>
            get_predictions argsort to_csv fs model top_x_param output_param
              = Inl (HTTPException 404
                  (''Prediction file '' @ quoted (path_name (MODEL_FILES model))
                     @ '' is empty.'')))
       \<and> (\<forall>error. fs (MODEL_FILES model) = Some (Malformed error) \<longrightarrow>
            (\<exists>detail. get_predictions argsort to_csv fs model top_x_param output_param
                         = Inl (HTTPException 500 detail)
                       \<and> sublist error detail))
       \<and> (\<forall>df :: 'v DataFrame.
            ''rank'' \<notin> set (columns df) \<and> score_column model \<notin> set (columns df) \<longrightarrow>
            (\<exists>detail. top_rows argsort df model top_x = Inl (HTTPException 422 detail)
                       \<and> sublist (score_column model) detail
                       \<and> (fs (MODEL_FILES model) = Some (Table df) \<and> \<not> empty_df df \<longrightarrow>
                            get_predictions argsort to_csv fs model top_x_param output_param
                              = Inl (HTTPException 422 detail))))"
proof (intro conjI allI impI)
  assume "fs (MODEL_FILES model) = None"
  from get_predictions_load_failure
         [OF valid load_predictions_missing [of fs model, OF this]]
  show "get_predictions argsort to_csv fs model top_x_param output_param
          = Inl (HTTPException 404
              (''Prediction file not found for model '' @ quoted (model_value model)
                 @ '': '' @ path_name (MODEL_FILES model)))" .
next
  fix df
  assume "fs (MODEL_FILES model) = Some (Table df) \<and> rows df = []"
  then have "load_predictions fs model
               = Inl (HTTPException 404
                   (''Prediction file '' @ quoted (path_name (MODEL_FILES model))
                      @ '' is empty.''))"
    by (simp add: load_predictions_table empty_df_def)
  from get_predictions_load_failure [OF valid this]
  show "get_predictions argsort to_csv fs model top_x_param output_param
          = Inl (HTTPException 404
              (''Prediction file '' @ quoted (path_name (MODEL_FILES model)) @ '' is empty.''))" .
next
  fix error
  assume "fs (MODEL_FILES model) = Some (Malformed error)"
  from get_predictions_load_failure
         [OF valid load_predictions_malformed [of fs model, OF this]]
  have "get_predictions argsort to_csv fs model top_x_param output_param
          = Inl (HTTPException 500
              ((''Failed to read prediction file '' @ quoted (path_name (MODEL_FILES model))
                  @ '': '') @ error @ []))"
    by simp
  then show "\<exists>detail. get_predictions argsort to_csv fs model top_x_param output_param
                        = Inl (HTTPException 500 detail)
                      \<and> sublist error detail"
    using sublist_appendI by blast
next
  fix df :: "'v DataFrame"
  let ?detail = "(''Expected column '' @ [CHR 0x27]) @ score_column model
                   @ ([CHR 0x27] @ '' was not found.'')"
  assume lacking: "''rank'' \<notin> set (columns df) \<and> score_column model \<notin> set (columns df)"
  then have c: "ranking_column df model = score_column model"
    by (simp add: ranking_column_score)
  with lacking have "ranking_column df model \<notin> set (columns df)" by simp
  from top_rows_Inl [OF this] c
  have sel: "top_rows argsort df model top_x = Inl (HTTPException 422 ?detail)"
    by (simp add: quoted_def)
  have named: "sublist (score_column model) ?detail"
    by (rule sublist_appendI)
  have "get_predictions argsort to_csv fs model top_x_param output_param
          = Inl (HTTPException 422 ?detail)"
    if loaded: "fs (MODEL_FILES model) = Some (Table df) \<and> \<not> empty_df df"
  proof -
    from loaded have "load_predictions fs model = Inr df"
      by (simp add: load_predictions_table)
    from get_predictions_select_failure [OF valid this sel] show ?thesis .
  qed
  with sel named
  show "\<exists>detail. top_rows argsort df model top_x = Inl (HTTPException 422 detail)
          \<and> sublist (score_column model) detail
          \<and> (fs (MODEL_FILES model) = Some (Table df) \<and> \<not> empty_df df \<longrightarrow>
               get_predictions argsort to_csv fs model top_x_param output_param
                 = Inl (HTTPException 422 detail))"
    by blast
qed

theorem failure_classes_witness:
  "get_predictions insertion_argsort unused_csv Map.empty logistic_regression None None
     = Inl (HTTPException 404
         ''Prediction file not found for model 'logistic_regression': logreg_predictions_all.csv'')
   \<and> get_predictions insertion_argsort unused_csv (disk (Table header_only)) logistic_regression
         (Some 5) (Some csv)
       = Inl (HTTPException 404 ''Prediction file 'logreg_predictions_all.csv' is empty.'')
   \<and> get_predictions insertion_argsort unused_csv (disk (Malformed ''Error tokenizing data''))
         logistic_regression (Some 5) None
       = Inl (HTTPException 500
           ''Failed to read prediction file 'logreg_predictions_all.csv': Error tokenizing data'')
   \<and> sublist ''Error tokenizing data''
        ''Failed to read prediction file 'logreg_predictions_all.csv': Error tokenizing data''
   \<and> get_predictions insertion_argsort unused_csv (disk (Table unranked)) logistic_regression
         None (Some json)
       = Inl (HTTPException 422 ''Expected column 'prob_first_time_investor' was not found.'')
   \<and> sublist ''prob_first_time_investor''
        ''Expected column 'prob_first_time_investor' was not found.''"
proof -
  have v1: "Query_int 1000 1 100000 None = Inr 1000"
    and v2: "Query_int 1000 1 100000 (Some 5) = Inr 5"
    by (simp_all add: Query_int_def)
  have f1: "(Map.empty :: rat filesystem) (MODEL_FILES logistic_regression) = None"
    by simp
  have f2: "disk (Table header_only) (MODEL_FILES logistic_regression) = Some (Table header_only)
              \<and> rows header_only = []"
    by (simp add: disk_def header_only_def)
  have "get_predictions insertion_argsort unused_csv Map.empty logistic_regression None None
     = Inl (HTTPException 404
         ''Prediction file not found for model 'logistic_regression': logreg_predictions_all.csv'')"
  proof -
    from failure_classes
           [OF v1, of Map.empty logistic_regression insertion_argsort unused_csv None] f1
    have "get_predictions insertion_argsort unused_csv Map.empty logistic_regression None None
            = Inl (HTTPException 404
                (''Prediction file not found for model '' @ quoted (model_value logistic_regression)
                   @ '': '' @ path_name (MODEL_FILES logistic_regression)))"
      by blast
    then show ?thesis by (simp add: quoted_def path_name_def)
  qed
  moreover
  have "get_predictions insertion_argsort unused_csv (disk (Table header_only)) logistic_regression
         (Some 5) (Some csv)
       = Inl (HTTPException 404 ''Prediction file 'logreg_predictions_all.csv' is empty.'')"
  proof -
    from failure_classes [OF v2, of "disk (Table header_only)" logistic_regression
           insertion_argsort unused_csv "Some csv"] f2
    have "get_predictions insertion_argsort unused_csv (disk (Table header_only))
            logistic_regression (Some 5) (Some csv)
            = Inl (HTTPException 404
                (''Prediction file '' @ quoted (path_name (MODEL_FILES logistic_regression))
                   @ '' is empty.''))"
      by blast
    then show ?thesis by (simp add: quoted_def path_name_def)
  qed
  moreover
  have "get_predictions insertion_argsort unused_csv (disk (Malformed ''Error tokenizing data''))
         logistic_regression (Some 5) None
       = Inl (HTTPException 500
           ''Failed to read prediction file 'logreg_predictions_all.csv': Error tokenizing data'')"
    by code_simp
  moreover
  have "sublist ''Error tokenizing data''
        ''Failed to read prediction file 'logreg_predictions_all.csv': Error tokenizing data''"
    by code_simp
  moreover
  have "get_predictions insertion_argsort unused_csv (disk (Table unranked)) logistic_regression
         None (Some json)
       = Inl (HTTPException 422 ''Expected column 'prob_first_time_investor' was not found.'')"
    by code_simp
  moreover
  have "sublist ''prob_first_time_investor''
        ''Expected column 'prob_first_time_investor' was not found.''"
    by code_simp
  ultimately show ?thesis by blast
qed

text \<open>
  C6. The 404 for a missing file names the file and the model. The 404 for a file that
  parses to no rows names the file, and does not name the model.
\<close>

theorem not_found_messages:
  "(fs (MODEL_FILES model_choice) = None \<longrightarrow>
      (\<exists>detail. load_predictions fs model_choice = Inl (HTTPException 404 detail)
         \<and> sublist (path_name (MODEL_FILES model_choice)) detail
         \<and> sublist (model_value model_choice) detail))
   \<and> (\<forall>df. fs (MODEL_FILES model_choice) = Some (Table df) \<and> rows df = [] \<longrightarrow>
      (\<exists>detail. load_predictions fs model_choice = Inl (HTTPException 404 detail)
         \<and> sublist (path_name (MODEL_FILES model_choice)) detail
         \<and> \<not> sublist (model_value model_choice) detail))"
proof (intro conjI allI impI)
  let ?name = "path_name (MODEL_FILES model_choice)"
  assume "fs (MODEL_FILES model_choice) = None"
  note load = load_predictions_missing [of fs model_choice, OF this]
  let ?detail = "''Prediction file not found for model '' @ quoted (model_value model_choice)
                   @ '': '' @ ?name"
  have "?detail = (''Prediction file not found for model '' @ quoted (model_value model_choice)
                     @ '': '') @ ?name @ []"
    by simp
  then have "sublist ?name ?detail"
    by (metis sublist_appendI)
  moreover
  have "?detail = (''Prediction file not found for model '' @ [CHR 0x27]) @ model_value model_choice
                     @ ([CHR 0x27] @ '': '' @ ?name)"
    by (simp add: quoted_def)
  then have "sublist (model_value model_choice) ?detail"
    by (metis sublist_appendI)
  ultimately
  show "\<exists>detail. load_predictions fs model_choice = Inl (HTTPException 404 detail)
          \<and> sublist ?name detail \<and> sublist (model_value model_choice) detail"
    using load by blast
next
  fix df
  let ?name = "path_name (MODEL_FILES model_choice)"
  let ?detail = "''Prediction file '' @ quoted ?name @ '' is empty.''"
  assume "fs (MODEL_FILES model_choice) = Some (Table df) \<and> rows df = []"
  then have load: "load_predictions fs model_choice = Inl (HTTPException 404 ?detail)"
    by (simp add: load_predictions_table empty_df_def)
  have "?detail = (''Prediction file '' @ [CHR 0x27]) @ ?name @ ([CHR 0x27] @ '' is empty.'')"
    by (simp add: quoted_def)
  then have "sublist ?name ?detail"
    by (metis sublist_appendI)
  with load empty_message_silent [of model_choice]
  show "\<exists>detail. load_predictions fs model_choice = Inl (HTTPException 404 detail)
          \<and> sublist ?name detail \<and> \<not> sublist (model_value model_choice) detail"
    by blast
qed

theorem not_found_messages_witness:
  "load_predictions (Map.empty :: rat filesystem) xgboost
     = Inl (HTTPException 404 ''Prediction file not found for model 'xgboost': xgb_predictions_all.csv'')
   \<and> sublist ''xgb_predictions_all.csv''
        ''Prediction file not found for model 'xgboost': xgb_predictions_all.csv''
   \<and> sublist ''xgboost''
        ''Prediction file not found for model 'xgboost': xgb_predictions_all.csv''
   \<and> load_predictions [MODEL_FILES xgboost \<mapsto> Table header_only] xgboost
       = Inl (HTTPException 404 ''Prediction file 'xgb_predictions_all.csv' is empty.'')
   \<and> sublist ''xgb_predictions_all.csv'' ''Prediction file 'xgb_predictions_all.csv' is empty.''
   \<and> \<not> sublist ''xgboost'' ''Prediction file 'xgb_predictions_all.csv' is empty.''"
proof -
  have missing: "(Map.empty :: rat filesystem) (MODEL_FILES xgboost) = None" by simp
  have present: "[MODEL_FILES xgboost \<mapsto> Table header_only] (MODEL_FILES xgboost)
                   = Some (Table header_only) \<and> rows header_only = []"
    by (simp add: header_only_def)
  have m1: "load_predictions (Map.empty :: rat filesystem) xgboost
     = Inl (HTTPException 404 ''Prediction file not found for model 'xgboost': xgb_predictions_all.csv'')"
    by code_simp
  have m2: "load_predictions [MODEL_FILES xgboost \<mapsto> Table header_only] xgboost
       = Inl (HTTPException 404 ''Prediction file 'xgb_predictions_all.csv' is empty.'')"
    by code_simp
  from not_found_messages [of "Map.empty :: rat filesystem" xgboost] missing m1
  have a: "sublist ''xgb_predictions_all.csv''
             ''Prediction file not found for model 'xgboost': xgb_predictions_all.csv''
           \<and> sublist ''xgboost''
               ''Prediction file not found for model 'xgboost': xgb_predictions_all.csv''"
    by (simp add: path_name_def PREDICTION_DB_DIR_def)
  from not_found_messages [of "[MODEL_FILES xgboost \<mapsto> Table header_only]" xgboost] present m2
  have b: "sublist ''xgb_predictions_all.csv'' ''Prediction file 'xgb_predictions_all.csv' is empty.''
           \<and> \<not> sublist ''xgboost'' ''Prediction file 'xgb_predictions_all.csv' is empty.''"
    by (simp add: path_name_def PREDICTION_DB_DIR_def)
  from a b m1 m2 show ?thesis by blast
qed

text \<open>
  The header-only file of the logistic regression model: the detail of its 404 does not
  contain the model identifier.
\<close>

theorem empty_message_counterexample:
  "rows header_only = []
   \<and> load_predictions (disk (Table header_only)) logistic_regression
       = Inl (HTTPException 404 ''Prediction file 'logreg_predictions_all.csv' is empty.'')
   \<and> \<not> sublist (model_value logistic_regression)
             ''Prediction file 'logreg_predictions_all.csv' is empty.''"
  by code_simp

text \<open>
  C7. The body of a successful JSON response is an object of four members: the model
  identifier, the requested \<open>top_x\<close>, the count, and the selected rows in order, each
  row an object that maps the column names, in column order, to the row's values. The
  count is the length of the list of rows.
\<close>

theorem json_body:
  assumes fmt: "Query_enum json output_param = json"
    and success: "get_predictions argsort to_csv fs model top_x_param output_param = Inr response"
  shows "\<exists>df top_df results.
           load_predictions fs model = Inr df
           \<and> top_rows argsort df model (case top_x_param of None \<Rightarrow> 1000 | Some n \<Rightarrow> n) = Inr top_df
           \<and> results = map (\<lambda>r. JObject (zip (columns top_df) (map JScalar r))) (cells top_df)
           \<and> response =
               JSONResponse
                 (JObject
                    [(''model'', JString (model_value model)),
                     (''top_x'', JInt (case top_x_param of None \<Rightarrow> 1000 | Some n \<Rightarrow> n)),
                     (''count'', JInt (int (length results))),
                     (''results'', JArray results)])"
proof -
  from get_predictions_Inr [OF success] fmt obtain top_x df top_df where
    q: "Query_int 1000 1 100000 top_x_param = Inr top_x"
    and load: "load_predictions fs model = Inr df"
    and sel: "top_rows argsort df model top_x = Inr top_df"
    and resp: "response = JSONResponse (json_content model top_x top_df)"
    by auto
  from Query_int_Inr [OF q]
  have top_x: "top_x = (case top_x_param of None \<Rightarrow> 1000 | Some n \<Rightarrow> n)" by simp
  let ?results = "map (\<lambda>r. JObject (zip (columns top_df) (map JScalar r))) (cells top_df)"
  have "map (\<lambda>(k, v). (k, JScalar v)) (zip cols r) = zip cols (map JScalar r)"
    for cols :: "string list" and r :: "'a option list"
    by (simp add: zip_map2)
  then have "json_content model top_x top_df
          = JObject
              [(''model'', JString (model_value model)),
               (''top_x'', JInt top_x),
               (''count'', JInt (int (length ?results))),
               (''results'', JArray ?results)]"
    by (simp add: json_content_def to_dict_records_def cells_def len_def comp_def)
  with resp load sel show ?thesis unfolding top_x by blast
qed

theorem json_body_witness:
  "get_predictions insertion_argsort unused_csv (disk (Table scenario)) logistic_regression
     (Some 2) (Some json)
     = Inr (JSONResponse
         (JObject
           [(''model'', JString ''logistic_regression''),
            (''top_x'', JInt 2),
            (''count'', JInt (int (length
               (map (\<lambda>r. JObject (zip (columns top_two) (map JScalar r))) (cells top_two))))),
            (''results'', JArray
               (map (\<lambda>r. JObject (zip (columns top_two) (map JScalar r))) (cells top_two)))]))"
proof -
  have fmt: "Query_enum json (Some json) = json" by (simp add: Query_enum_def)
  from json_body [OF fmt scenario_request] scenario_load scenario_top_two
  show ?thesis by (simp add: scenario_request)
qed

text \<open>
  C9. An omitted \<open>top_x\<close> is 1000 and an omitted \<open>output\<close> is json: the request with
  either or both left out is answered as the request that passes these values.
\<close>

theorem query_defaults:
  "get_predictions argsort to_csv fs model None output
     = get_predictions argsort to_csv fs model (Some 1000) output
   \<and> get_predictions argsort to_csv fs model top_x None
     = get_predictions argsort to_csv fs model top_x (Some json)
   \<and> get_predictions argsort to_csv fs model None None
     = get_predictions argsort to_csv fs model (Some 1000) (Some json)"
proof -
  have top_x_default: "Query_int 1000 1 100000 None = Query_int 1000 1 100000 (Some 1000)"
    by (simp add: Query_int_def)
  have output_default: "Query_enum json None = Query_enum json (Some json)"
    by (simp add: Query_enum_def)
  show ?thesis
    unfolding get_predictions_def top_x_default output_default by simp
qed

text \<open>
  C10. In every branch that sorts, ascending or descending, the selector succeeds on a
  table with missing ranking values: the sorted table holds every row of the table once,
  the output is its leading slice, and in both the rows with a missing ranking value come
  after all rows that have one.
\<close>

theorem missing_keys_last:
  assumes ok: "argsort_ok argsort"
    and has: "ranking_column df model_choice \<in> set (columns df)"
  shows "\<exists>out full.
           top_rows argsort df model_choice top_x = Inr out
           \<and> mset full = mset (cells df)
           \<and> cells out = py_take top_x full
           \<and> missing_last (map (ranking_key df model_choice) full)
           \<and> missing_last (column out (ranking_column df model_choice))"
proof -
  let ?c = "ranking_column df model_choice"
  let ?asc = "''rank'' \<in> set (columns df)"
  let ?S = "sort_values argsort df ?c ?asc"
  let ?out = "reset_index (head ?S top_x)"
  have run: "top_rows argsort df model_choice top_x = Inr ?out"
    by (rule top_rows_Inr [OF has])
  have sorted_S: "sorted_wrt (key_le ?asc) (column ?S ?c)"
    by (rule sorted_column_sort_values [OF ok])
  have "map (ranking_key df model_choice) (cells ?S) = column ?S ?c"
    by (simp add: column_cells columns_sort_values ranking_key_def)
  with sorted_S have full: "missing_last (map (ranking_key df model_choice) (cells ?S))"
    by (simp add: sorted_wrt_missing_last)
  have "column ?out ?c = py_take top_x (column ?S ?c)"
    by (simp add: column_reset_index column_head)
  with sorted_S have "sorted_wrt (key_le ?asc) (column ?out ?c)"
    by (simp add: sorted_wrt_py_take)
  then have "missing_last (column ?out ?c)"
    by (rule sorted_wrt_missing_last)
  moreover have "cells ?out = py_take top_x (cells ?S)"
    by (simp add: cells_reset_index cells_head)
  moreover note run full mset_cells_sort_values [OF ok, of df ?c ?asc]
  ultimately show ?thesis by blast
qed

theorem missing_keys_last_witness:
  "top_rows insertion_argsort scored weibull_tte_rnn 1000 = Inr scored_sorted
   \<and> column scored ''risk_6m'' = [None, Some (1/5), Some (7/10)]
   \<and> column scored_sorted ''risk_6m'' = [Some (7/10), Some (1/5), None]
   \<and> missing_last (column scored_sorted ''risk_6m'')"
proof -
  have c: "ranking_column scored weibull_tte_rnn = ''risk_6m''"
    by (simp add: ranking_column_def scored_def)
  then have has: "ranking_column scored weibull_tte_rnn \<in> set (columns scored)"
    by (simp add: scored_def)
  from missing_keys_last [OF argsort_ok_insertion has, of 1000] scored_run c
  have "missing_last (column scored_sorted ''risk_6m'')" by auto
  moreover have "column scored ''risk_6m'' = [None, Some (1/5), Some (7/10)]"
    by code_simp
  moreover have "column scored_sorted ''risk_6m'' = [Some (7/10), Some (1/5), None]"
    by code_simp
  ultimately show ?thesis using scored_run by blast
qed

end
